theory Spec2Isabelle
  imports Main "HOL-Library.Word" "HOL-Library.Sublist"
begin

section \<open>Go values\<close>

text \<open>
  Go's \<open>int\<close> is a 64-bit two's-complement integer on the platforms the services run on:
  \<open>+\<close> wraps, \<open>sint\<close> reads the value.  Strings are byte lists.  What the handlers write
  to the log is not part of the model.
\<close>

type_synonym go_int = "64 word"

definition digit_char :: "nat \<Rightarrow> char" where
  "digit_char d = char_of (48 + d)"

fun show_nat :: "nat \<Rightarrow> string" where
  "show_nat n = (if n < 10 then [digit_char n] else show_nat (n div 10) @ [digit_char (n mod 10)])"

declare show_nat.simps [simp del]

text \<open>\<open>strconv.Itoa\<close>, which is also what the verb \<open>%d\<close> of \<open>fmt\<close> prints for an int.\<close>

definition Itoa :: "go_int \<Rightarrow> string" where
  "Itoa i = (if sint i < 0 then CHR ''-'' # show_nat (nat (- sint i)) else show_nat (nat (sint i)))"

definition digit_val :: "char \<Rightarrow> nat option" where
  "digit_val c =
     (let n = (of_char c :: nat) in if 48 \<le> n \<and> n \<le> 57 then Some (n - 48) else None)"

fun parse_digits :: "nat \<Rightarrow> string \<Rightarrow> nat option" where
  "parse_digits acc [] = Some acc"
| "parse_digits acc (c # cs) =
     (case digit_val c of None \<Rightarrow> None | Some d \<Rightarrow> parse_digits (10 * acc + d) cs)"

text \<open>
  \<open>strconv.Atoi\<close>: an optional sign, then at least one decimal digit and nothing else;
  a value outside the range of \<open>int\<close> is an error as well.  \<open>None\<close> is the error.
\<close>

definition Atoi :: "string \<Rightarrow> go_int option" where
  "Atoi s =
     (let neg = (s \<noteq> [] \<and> hd s = CHR ''-'');
          ds = (if s \<noteq> [] \<and> (hd s = CHR ''-'' \<or> hd s = CHR ''+'') then tl s else s)
      in if ds = [] then None
         else case parse_digits 0 ds of
                None \<Rightarrow> None
              | Some n \<Rightarrow>
                  (let v = (if neg then - int n else int n)
                   in if v < - (2 ^ 63) \<or> 2 ^ 63 - 1 < v then None else Some (word_of_int v)))"

section \<open>Data model\<close>

record User =
  ID :: go_int
  Name :: string
  Email :: string

record Order =
  ID :: go_int
  UserID :: go_int
  Product :: string
  Quantity :: go_int
  Status :: string
  User :: "User option"

text \<open>The zero values that \<open>var newUser User\<close> and \<open>var newOrder Order\<close> start from.\<close>

definition zeroUser :: User where
  "zeroUser = \<lparr>User.ID = 0, Name = [], Email = []\<rparr>"

definition zeroOrder :: Order where
  "zeroOrder = \<lparr>Order.ID = 0, UserID = 0, Product = [], Quantity = 0, Status = [], User = None\<rparr>"

subsection \<open>JSON bodies\<close>

text \<open>
  \<open>encoding/json\<close> is a library.  What a handler sees of a body is the outcome of
  \<open>Decode\<close> into its struct: an error with its text, or the members of the JSON object that
  name a field of the struct, each with a value of the field's type.  A member that is
  missing (or \<open>null\<close>) leaves the field of the target as it was.
\<close>

datatype 'f decoded = Undecodable string | Object 'f

record user_fields =
  f_id :: "go_int option"
  f_name :: "string option"
  f_email :: "string option"

record order_fields =
  o_id :: "go_int option"
  o_user_id :: "go_int option"
  o_product :: "string option"
  o_quantity :: "go_int option"
  o_status :: "string option"
  o_user :: "user_fields option"

definition assign :: "'a option \<Rightarrow> 'a \<Rightarrow> 'a" where
  "assign v old = (case v of None \<Rightarrow> old | Some x \<Rightarrow> x)"

definition decodeUser :: "user_fields \<Rightarrow> User \<Rightarrow> User" where
  "decodeUser f u =
     \<lparr>User.ID = assign (f_id f) (User.ID u),
      Name = assign (f_name f) (Name u),
      Email = assign (f_email f) (Email u)\<rparr>"

text \<open>The member \<open>user\<close> fills a pointer: an object allocates a fresh \<open>User\<close>.\<close>

definition decodeOrder :: "order_fields \<Rightarrow> Order \<Rightarrow> Order" where
  "decodeOrder f x =
     \<lparr>Order.ID = assign (o_id f) (Order.ID x),
      UserID = assign (o_user_id f) (UserID x),
      Product = assign (o_product f) (Product x),
      Quantity = assign (o_quantity f) (Quantity x),
      Status = assign (o_status f) (Status x),
      User = (case o_user f of None \<Rightarrow> User x | Some uf \<Rightarrow> Some (decodeUser uf zeroUser))\<rparr>"

text \<open>What \<open>Encode\<close> writes, as a JSON value.\<close>

datatype json = JNum go_int | JStr string | JArr "json list" | JObj "(string \<times> json) list"

definition encodeUser :: "User \<Rightarrow> json" where
  "encodeUser u =
     JObj [(''id'', JNum (User.ID u)), (''name'', JStr (Name u)), (''email'', JStr (Email u))]"

text \<open>The tag \<open>omitempty\<close> drops the member \<open>user\<close> of an order whose pointer is nil.\<close>

definition encodeOrder :: "Order \<Rightarrow> json" where
  "encodeOrder x =
     JObj ([(''id'', JNum (Order.ID x)), (''user_id'', JNum (UserID x)),
            (''product'', JStr (Product x)), (''quantity'', JNum (Quantity x)),
            (''status'', JStr (Status x))]
           @ (case User x of None \<Rightarrow> [] | Some u \<Rightarrow> [(''user'', encodeUser u)]))"

section \<open>HTTP\<close>

text \<open>
  A request as a handler reads it: the method, the path of the URL and the body, the body
  being what \<open>Decode\<close> makes of it for the struct of the service.  The mux hands a handler
  the path in its canonical form.
\<close>

record 'f request =
  Method :: string
  Path :: string
  Body :: "'f decoded"

datatype payload = Text string | Json json

record response =
  status :: int
  content_type :: "string option"
  written :: payload

text \<open>\<open>http.Error\<close> writes the message and a newline as plain text.\<close>

definition http_Error :: "string \<Rightarrow> int \<Rightarrow> response" where
  "http_Error msg code =
     \<lparr>status = code, content_type = Some ''text/plain; charset=utf-8'', written = Text (msg @ ''\<newline>'')\<rparr>"

text \<open>A handler that sets the header, optionally the status, and encodes a value.\<close>

definition json_reply :: "int \<Rightarrow> json \<Rightarrow> response" where
  "json_reply code v = \<lparr>status = code, content_type = Some ''application/json'', written = Json v\<rparr>"

definition healthCheck :: response where
  "healthCheck = \<lparr>status = 200, content_type = None, written = Text ''OK''\<rparr>"

text \<open>The mux's own answer for a path that no pattern matches.\<close>

definition NotFound :: response where
  "NotFound = http_Error ''404 page not found'' 404"

text \<open>
  Ranging over a Go map visits every key once, in an order the runtime chooses; the order
  is an input of the model, and \<open>visits\<close> says that it is one of the map.
\<close>

definition visits :: "'k list \<Rightarrow> ('k \<rightharpoonup> 'v) \<Rightarrow> bool" where
  "visits ks m \<longleftrightarrow> distinct ks \<and> set ks = dom m"

section \<open>The user service\<close>

record user_store =
  users :: "go_int \<rightharpoonup> User"
  nextID :: go_int

text \<open>The names of the two seeded users are Cyrillic text, here as its UTF-8 bytes.\<close>

definition seed_name_1 :: string where
  "seed_name_1 = map char_of
     [208, 161, 208, 176, 208, 188, 209, 139, 208, 187, 32, 208, 161, 208, 176, 208, 188,
      209, 139, 208, 187, 209, 139, 209, 135 :: nat]"

definition seed_name_2 :: string where
  "seed_name_2 = map char_of
     [208, 156, 208, 184, 209, 133, 208, 176, 208, 184, 208, 187, 32, 208, 168, 208, 176,
      208, 188, 208, 176, 208, 189, 209, 143 :: nat]"

definition users_init :: user_store where
  "users_init =
     \<lparr>users = [1 \<mapsto> \<lparr>User.ID = 1, Name = seed_name_1, Email = ''player@example.com''\<rparr>,
               2 \<mapsto> \<lparr>User.ID = 2, Name = seed_name_2, Email = ''mishutka@example.com''\<rparr>],
      nextID = 3\<rparr>"

text \<open>
  \<open>getUsers\<close> encodes the map itself: a JSON object whose member names are the keys in
  decimal.  The order of the members is left open, as the input \<open>ks\<close>.
\<close>

definition getUsers :: "go_int list \<Rightarrow> user_store \<Rightarrow> response" where
  "getUsers ks st =
     json_reply 200
       (JObj (List.map_filter (\<lambda>k. map_option (\<lambda>u. (Itoa k, encodeUser u)) (users st k)) ks))"

text \<open>
  Slicing the path below the length of the prefix panics; \<open>None\<close> is the panic, which
  the server answers by dropping the connection.
\<close>

definition getUserByID :: "'f request \<Rightarrow> user_store \<Rightarrow> response option" where
  "getUserByID r st =
     (if length (Path r) < length ''/users/'' then None
      else case Atoi (drop (length ''/users/'') (Path r)) of
             None \<Rightarrow> Some (http_Error ''Invalid user ID'' 400)
           | Some i \<Rightarrow>
               (case users st i of
                  None \<Rightarrow> Some (http_Error ''User not found'' 404)
                | Some user \<Rightarrow> Some (json_reply 200 (encodeUser user))))"

definition createUser :: "user_fields request \<Rightarrow> user_store \<Rightarrow> response \<times> user_store" where
  "createUser r st =
     (case Body r of
        Undecodable e \<Rightarrow> (http_Error e 400, st)
      | Object f \<Rightarrow>
          (let newUser = (decodeUser f zeroUser)\<lparr>User.ID := user_store.nextID st\<rparr>
           in (json_reply 201 (encodeUser newUser),
               st\<lparr>users := (users st)(user_store.nextID st \<mapsto> newUser),
                  user_store.nextID := user_store.nextID st + 1\<rparr>)))"

text \<open>The routes of \<open>main\<close>: \<open>/users\<close> exactly, everything below \<open>/users/\<close>, \<open>/health\<close>.\<close>

definition serve_users ::
  "go_int list \<Rightarrow> user_fields request \<Rightarrow> user_store \<Rightarrow> response option \<times> user_store" where
  "serve_users ks r st =
     (if Path r = ''/users'' then
        (if Method r = ''GET'' then (Some (getUsers ks st), st)
         else if Method r = ''POST'' then (case createUser r st of (w, st') \<Rightarrow> (Some w, st'))
         else (Some (http_Error ''Method not allowed'' 405), st))
      else if prefix ''/users/'' (Path r) then (getUserByID r st, st)
      else if Path r = ''/health'' then (Some healthCheck, st)
      else (Some NotFound, st))"

section \<open>The order service\<close>

subsection \<open>The client of the user service\<close>

text \<open>
  What one round trip to the user service can come to: the request cannot be built, the
  transport fails (refused, timed out, cancelled), or a response arrives with its status
  and its body.  The network is an input of the model: for each URL, the outcome of a GET
  at the moment of the call.  Deadlines are not modelled; a call that runs into the
  context's or the client's limit is a transport failure.
\<close>

datatype http_result =
    RequestError string
  | TransportError string
  | Response go_int "user_fields decoded"

text \<open>Of \<open>http.Client\<close> the services set the timeout only, here in seconds.\<close>

record http_Client =
  Timeout :: nat

record UserServiceClient =
  BaseURL :: string
  Client :: http_Client

definition GetUserByID :: "UserServiceClient \<Rightarrow> (string \<Rightarrow> http_result) \<Rightarrow> go_int \<Rightarrow> string + User" where
  "GetUserByID c net userID =
     (let url = BaseURL c @ ''/users/'' @ Itoa userID
      in case net url of
           RequestError e \<Rightarrow> Inl e
         | TransportError e \<Rightarrow> Inl (''failed to connect to user service: '' @ e)
         | Response code b \<Rightarrow>
             if code = 404 then Inl ''user not found''
             else if code \<noteq> 200 then Inl (''user service returned status: '' @ Itoa code)
             else (case b of
                     Undecodable e \<Rightarrow> Inl e
                   | Object f \<Rightarrow> Inr (decodeUser f zeroUser)))"

subsection \<open>The store and the handlers\<close>

record order_store =
  orders :: "go_int \<rightharpoonup> Order"
  nextID :: go_int

definition orders_init :: order_store where
  "orders_init =
     \<lparr>orders = [1 \<mapsto> \<lparr>Order.ID = 1, UserID = 1, Product = ''Laptop'', Quantity = 1,
                       Status = ''pending'', User = None\<rparr>,
                2 \<mapsto> \<lparr>Order.ID = 2, UserID = 2, Product = ''Mouse'', Quantity = 2,
                       Status = ''shipped'', User = None\<rparr>],
      nextID = 3\<rparr>"

definition userClient :: UserServiceClient where
  "userClient = \<lparr>BaseURL = ''http://localhost:8082'', Client = \<lparr>Timeout = 5\<rparr>\<rparr>"

text \<open>\<open>getOrders\<close> copies the records into a slice, in the order the range visits them.\<close>

definition getOrders :: "go_int list \<Rightarrow> order_store \<Rightarrow> response" where
  "getOrders ks st = json_reply 200 (JArr (map encodeOrder (List.map_filter (orders st) ks)))"

definition getOrderByID ::
  "(string \<Rightarrow> http_result) \<Rightarrow> 'f request \<Rightarrow> order_store \<Rightarrow> response option" where
  "getOrderByID net r st =
     (if length (Path r) < length ''/orders/'' then None
      else case Atoi (drop (length ''/orders/'') (Path r)) of
             None \<Rightarrow> Some (http_Error ''Invalid order ID'' 400)
           | Some i \<Rightarrow>
               (case orders st i of
                  None \<Rightarrow> Some (http_Error ''Order not found'' 404)
                | Some order \<Rightarrow>
                    (let user = (case GetUserByID userClient net (UserID order) of
                                   Inl err \<Rightarrow> None | Inr u \<Rightarrow> Some u);
                         responseOrder = (case user of
                                            None \<Rightarrow> order
                                          | Some u \<Rightarrow> order\<lparr>User := Some u\<rparr>)
                     in Some (json_reply 200 (encodeOrder responseOrder)))))"

definition createOrder ::
  "(string \<Rightarrow> http_result) \<Rightarrow> order_fields request \<Rightarrow> order_store \<Rightarrow> response \<times> order_store" where
  "createOrder net r st =
     (case Body r of
        Undecodable e \<Rightarrow> (http_Error e 400, st)
      | Object f \<Rightarrow>
          (let newOrder = decodeOrder f zeroOrder
           in case GetUserByID userClient net (UserID newOrder) of
                Inl err \<Rightarrow>
                  (http_Error (''User not found or service unavailable: '' @ err) 400, st)
              | Inr u \<Rightarrow>
                  (let stored = newOrder\<lparr>Order.ID := order_store.nextID st\<rparr>
                   in (json_reply 201 (encodeOrder stored),
                       st\<lparr>orders := (orders st)(order_store.nextID st \<mapsto> stored),
                          order_store.nextID := order_store.nextID st + 1\<rparr>))))"

text \<open>What the world supplies to one request: the network and the order of a range.\<close>

record env =
  env_net :: "string \<Rightarrow> http_result"
  env_range :: "go_int list"

definition serve_orders ::
  "env \<Rightarrow> order_fields request \<Rightarrow> order_store \<Rightarrow> response option \<times> order_store" where
  "serve_orders e r st =
     (if Path r = ''/orders'' then
        (if Method r = ''GET'' then (Some (getOrders (env_range e) st), st)
         else if Method r = ''POST'' then (case createOrder (env_net e) r st of (w, st') \<Rightarrow> (Some w, st'))
         else (Some (http_Error ''Method not allowed'' 405), st))
      else if prefix ''/orders/'' (Path r) then (getOrderByID (env_net e) r st, st)
      else if Path r = ''/health'' then (Some healthCheck, st)
      else (Some NotFound, st))"

text \<open>A run of the service: the requests one after the other, each in its own world.\<close>

fun run_users :: "(go_int list \<times> user_fields request) list \<Rightarrow> user_store \<Rightarrow> user_store" where
  "run_users [] st = st"
| "run_users ((ks, r) # rs) st = run_users rs (snd (serve_users ks r st))"

fun run_orders :: "(env \<times> order_fields request) list \<Rightarrow> order_store \<Rightarrow> order_store" where
  "run_orders [] st = st"
| "run_orders ((e, r) # rs) st = run_orders rs (snd (serve_orders e r st))"

section \<open>What a caller can tell from the client's error\<close>

text \<open>
  Two of the texts the client returns are the library's own, handed on unchanged: the error
  of building the request and the error of decoding the body.
\<close>

fun passed_through :: "http_result \<Rightarrow> string option" where
  "passed_through (RequestError e) = Some e"
| "passed_through (TransportError e) = None"
| "passed_through (Response code b) =
     (if code = 200 then (case b of Undecodable e \<Rightarrow> Some e | Object f \<Rightarrow> None) else None)"

text \<open>The texts that the client composes itself.\<close>

definition own_text :: "string \<Rightarrow> bool" where
  "own_text e \<longleftrightarrow>
     e = ''user not found'' \<or> prefix ''failed to connect to user service: '' e
       \<or> prefix ''user service returned status: '' e"

definition foreign_texts :: "http_result \<Rightarrow> bool" where
  "foreign_texts r = (case passed_through r of None \<Rightarrow> True | Some e \<Rightarrow> \<not> own_text e)"

text \<open>The kinds of outcome that the specification of the client tells apart.\<close>

datatype peer_kind = Absent | BadStatus go_int | Unreachable | Library | Found

fun kind_of :: "http_result \<Rightarrow> peer_kind" where
  "kind_of (RequestError e) = Library"
| "kind_of (TransportError e) = Unreachable"
| "kind_of (Response code b) =
     (if code = 404 then Absent
      else if code \<noteq> 200 then BadStatus code
      else (case b of Undecodable e \<Rightarrow> Library | Object f \<Rightarrow> Found))"

text \<open>Some worlds: the user is absent, the service is down, broken, or answers garbage.\<close>

definition peer_absent :: "string \<Rightarrow> http_result" where
  "peer_absent url = Response 404 (Undecodable ''EOF'')"

definition peer_down :: "string \<Rightarrow> http_result" where
  "peer_down url = TransportError ''connection refused''"

definition peer_broken :: "string \<Rightarrow> http_result" where
  "peer_broken url = Response 500 (Undecodable ''EOF'')"

definition peer_garbled :: "string \<Rightarrow> http_result" where
  "peer_garbled url = Response 200 (Undecodable ''unexpected end of JSON input'')"

section \<open>Invariants of the stores\<close>

text \<open>
  Every handler touches its store in one critical section under the lock, and the calls to
  the user service happen outside it; so the requests of a run act on the store one after
  the other.  A stored record carries its key as its id, and every key lies below the
  counter.
\<close>

definition orders_ok :: "order_store \<Rightarrow> bool" where
  "orders_ok st \<longleftrightarrow> (\<forall>k x. orders st k = Some x \<longrightarrow> Order.ID x = k \<and> k <s order_store.nextID st)"

definition users_ok :: "user_store \<Rightarrow> bool" where
  "users_ok st \<longleftrightarrow> (\<forall>k u. users st k = Some u \<longrightarrow> User.ID u = k \<and> k <s user_store.nextID st)"

section \<open>Sample requests and worlds\<close>

definition alice :: user_fields where
  "alice = \<lparr>f_id = Some 1, f_name = Some ''Alice'', f_email = Some ''alice@example.com''\<rparr>"

definition peer_found :: "string \<Rightarrow> http_result" where
  "peer_found url = Response 200 (Object alice)"

definition world_up :: env where
  "world_up = \<lparr>env_net = peer_found, env_range = [1, 2]\<rparr>"

definition world_down :: env where
  "world_down = \<lparr>env_net = peer_down, env_range = [1, 2]\<rparr>"

definition book :: order_fields where
  "book = \<lparr>o_id = Some 99, o_user_id = Some 1, o_product = Some ''Book'', o_quantity = Some 1,
            o_status = Some ''pending'', o_user = None\<rparr>"

definition post_order :: "order_fields request" where
  "post_order = \<lparr>Method = ''POST'', Path = ''/orders'', Body = Object book\<rparr>"

definition post_user :: "user_fields request" where
  "post_user = \<lparr>Method = ''POST'', Path = ''/users'',
                 Body = Object \<lparr>f_id = Some 99, f_name = Some ''Bob'', f_email = Some ''bob@example.com''\<rparr>\<rparr>"

definition get_order :: "string \<Rightarrow> order_fields request" where
  "get_order p = \<lparr>Method = ''GET'', Path = p, Body = Undecodable ''EOF''\<rparr>"

definition get_user :: "string \<Rightarrow> user_fields request" where
  "get_user p = \<lparr>Method = ''GET'', Path = p, Body = Undecodable ''EOF''\<rparr>"

definition bad_post_order :: "order_fields request" where
  "bad_post_order = \<lparr>Method = ''POST'', Path = ''/orders'',
                      Body = Undecodable ''unexpected end of JSON input''\<rparr>"

definition bad_post_user :: "user_fields request" where
  "bad_post_user = \<lparr>Method = ''POST'', Path = ''/users'',
                     Body = Undecodable ''unexpected end of JSON input''\<rparr>"

definition post_no_owner :: "order_fields request" where
  "post_no_owner = \<lparr>Method = ''POST'', Path = ''/orders'',
                     Body = Object \<lparr>o_id = None, o_user_id = None, o_product = Some ''Pen'',
                                    o_quantity = Some 2, o_status = None, o_user = None\<rparr>\<rparr>"

definition peer_zero_only :: "string \<Rightarrow> http_result" where
  "peer_zero_only url =
     (if url = ''http://localhost:8082/users/0'' then Response 200 (Object alice)
      else TransportError ''connection refused'')"

definition world_zero :: env where
  "world_zero = \<lparr>env_net = peer_zero_only, env_range = []\<rparr>"

definition delete_order :: "string \<Rightarrow> order_fields request" where
  "delete_order p = \<lparr>Method = ''DELETE'', Path = p, Body = Undecodable ''EOF''\<rparr>"

definition delete_user :: "string \<Rightarrow> user_fields request" where
  "delete_user p = \<lparr>Method = ''DELETE'', Path = p, Body = Undecodable ''EOF''\<rparr>"

section \<open>Reading stores and responses\<close>

text \<open>Whether the body of a response is a JSON array.\<close>

fun is_array :: "json \<Rightarrow> bool" where
  "is_array (JArr xs) = True"
| "is_array j = False"

definition array_body :: "response \<Rightarrow> bool" where
  "array_body w = (case written w of Json j \<Rightarrow> is_array j | Text t \<Rightarrow> False)"

text \<open>
  Whether a response shows a user snapshot: an order object with the member \<open>user\<close>, alone or
  in an array.
\<close>

definition order_has_user :: "json \<Rightarrow> bool" where
  "order_has_user j = (case j of JObj kvs \<Rightarrow> ''user'' \<in> set (map fst kvs) | _ \<Rightarrow> False)"

definition carries_user :: "response \<Rightarrow> bool" where
  "carries_user w =
     (case written w of
        Text t \<Rightarrow> False
      | Json j \<Rightarrow> (case j of JArr xs \<Rightarrow> list_ex order_has_user xs | _ \<Rightarrow> order_has_user j))"

text \<open>No stored order has a snapshot; and a request whose payload brings none.\<close>

definition no_snapshot :: "order_store \<Rightarrow> bool" where
  "no_snapshot st \<longleftrightarrow> (\<forall>k x. orders st k = Some x \<longrightarrow> User x = None)"

definition without_user :: "order_fields request \<Rightarrow> bool" where
  "without_user r = (case Body r of Undecodable e \<Rightarrow> True | Object f \<Rightarrow> o_user f = None)"

text \<open>A payload that brings a user object of its own, and the stores after two creates.\<close>

definition mallory :: user_fields where
  "mallory = \<lparr>f_id = Some 9, f_name = Some ''Mallory'', f_email = Some ''m@example.com''\<rparr>"

definition post_with_user :: "order_fields request" where
  "post_with_user = \<lparr>Method = ''POST'', Path = ''/orders'', Body = Object (book\<lparr>o_user := Some mallory\<rparr>)\<rparr>"

definition with_book :: order_store where
  "with_book = orders_init\<lparr>orders := (orders orders_init)(3 \<mapsto> (decodeOrder book zeroOrder)\<lparr>Order.ID := 3\<rparr>),
                           order_store.nextID := 4\<rparr>"

definition with_mallory :: order_store where
  "with_mallory =
     orders_init\<lparr>orders := (orders orders_init)(3 \<mapsto>
                    \<lparr>Order.ID = 3, UserID = 1, Product = ''Book'', Quantity = 1, Status = ''pending'',
                     User = Some \<lparr>User.ID = 9, Name = ''Mallory'', Email = ''m@example.com''\<rparr>\<rparr>),
                 order_store.nextID := 4\<rparr>"

section \<open>Properties\<close>

subsection \<open>Printing and parsing integers\<close>

lemma digit_val_digit_char: "d < 10 \<Longrightarrow> digit_val (digit_char d) = Some d"
  by (simp add: digit_val_def digit_char_def)

lemma parse_digits_snoc:
  "parse_digits acc (xs @ [c]) =
     (case parse_digits acc xs of None \<Rightarrow> None
      | Some m \<Rightarrow> (case digit_val c of None \<Rightarrow> None | Some d \<Rightarrow> Some (10 * m + d)))"
  by (induction xs arbitrary: acc) (auto split: option.splits)

lemma parse_show_nat: "parse_digits 0 (show_nat n) = Some n"
proof (induction n rule: show_nat.induct)
  case (1 n)
  show ?case
  proof (cases "n < 10")
    case True
    then show ?thesis by (subst show_nat.simps) (simp add: digit_val_digit_char)
  next
    case False
    with 1 have "parse_digits 0 (show_nat (n div 10)) = Some (n div 10)" by simp
    with False show ?thesis
      by (subst show_nat.simps) (simp add: parse_digits_snoc digit_val_digit_char)
  qed
qed

lemma show_nat_nonempty: "show_nat n \<noteq> []"
  by (subst show_nat.simps) simp

lemma hd_show_nat: "\<exists>d<10. hd (show_nat n) = digit_char d"
proof (induction n rule: show_nat.induct)
  case (1 n)
  show ?case
  proof (cases "n < 10")
    case True
    then show ?thesis by (subst show_nat.simps) auto
  next
    case False
    with 1 obtain d where "d < 10" "hd (show_nat (n div 10)) = digit_char d" by auto
    with False show ?thesis
      by (subst show_nat.simps) (auto simp: show_nat_nonempty)
  qed
qed

lemma digit_char_not_sign: "d < 10 \<Longrightarrow> digit_char d \<noteq> CHR ''-'' \<and> digit_char d \<noteq> CHR ''+''"
proof -
  assume "d < 10"
  then have "digit_val (digit_char d) = Some d" by (rule digit_val_digit_char)
  moreover have "digit_val CHR ''-'' = None" "digit_val CHR ''+'' = None"
    by (simp_all add: digit_val_def)
  ultimately show ?thesis by auto
qed

lemma hd_show_nat_not_sign: "hd (show_nat n) \<noteq> CHR ''-'' \<and> hd (show_nat n) \<noteq> CHR ''+''"
proof -
  obtain d where "d < 10" "hd (show_nat n) = digit_char d" using hd_show_nat [of n] by blast
  then show ?thesis using digit_char_not_sign [of d] by simp
qed

lemma Atoi_Itoa: "Atoi (Itoa i) = Some i"
proof (cases "sint i < 0")
  case True
  have lo: "- (2 ^ 63) \<le> sint i" using sint_ge [of i] by simp
  from True have "int (nat (- sint i)) = - sint i" by simp
  with True lo show ?thesis
    by (simp add: Atoi_def Itoa_def Let_def parse_show_nat show_nat_nonempty)
next
  case False
  have hi: "sint i < 2 ^ 63" using sint_lt [of i] by simp
  from False have "int (nat (sint i)) = sint i" by simp
  moreover from False have "\<not> sint i < - (2 ^ 63)" by simp
  ultimately show ?thesis using False hi
    using hd_show_nat_not_sign [of "nat (sint i)"]
    by (simp add: Atoi_def Itoa_def Let_def parse_show_nat show_nat_nonempty)
qed

lemma Itoa_inj: "Itoa i = Itoa j \<Longrightarrow> i = j"
  by (metis Atoi_Itoa option.inject)

subsection \<open>The client\<close>

lemma GetUserByID_kind:
  assumes "net (BaseURL c @ ''/users/'' @ Itoa userID) = r" and "foreign_texts r"
  shows "case kind_of r of
           Absent \<Rightarrow> GetUserByID c net userID = Inl ''user not found''
         | BadStatus code \<Rightarrow>
             GetUserByID c net userID = Inl (''user service returned status: '' @ Itoa code)
         | Unreachable \<Rightarrow>
             (\<exists>e. GetUserByID c net userID = Inl (''failed to connect to user service: '' @ e))
         | Library \<Rightarrow> (\<exists>e. GetUserByID c net userID = Inl e \<and> \<not> own_text e)
         | Found \<Rightarrow> (\<exists>u. GetUserByID c net userID = Inr u)"
proof (cases r)
  case (RequestError e)
  with assms show ?thesis by (simp add: GetUserByID_def foreign_texts_def)
next
  case (TransportError e)
  with assms show ?thesis by (simp add: GetUserByID_def)
next
  case (Response code b)
  with assms show ?thesis
    by (cases b) (auto simp add: GetUserByID_def foreign_texts_def split: if_splits)
qed

lemma kinds_differ:
  assumes r: "net url = r" and r': "net' url = r'" and url: "url = BaseURL c @ ''/users/'' @ Itoa userID"
    and f: "foreign_texts r" and f': "foreign_texts r'"
    and ne: "kind_of r' \<noteq> kind_of r"
  shows "GetUserByID c net' userID \<noteq> GetUserByID c net userID"
proof
  assume eq: "GetUserByID c net' userID = GetUserByID c net userID"
  note k = GetUserByID_kind [where net = net and c = c and userID = userID, OF r [unfolded url] f]
    and k' = GetUserByID_kind [where net = net' and c = c and userID = userID, OF r' [unfolded url] f']
  show False
  proof (cases "kind_of r")
    case Absent
    with k k' ne eq show False
      by (cases "kind_of r'") (auto simp: own_text_def)
  next
    case (BadStatus code)
    with k k' ne eq show False
      by (cases "kind_of r'") (auto simp: own_text_def dest: Itoa_inj)
  next
    case Unreachable
    with k k' ne eq show False
      by (cases "kind_of r'") (auto simp: own_text_def)
  next
    case Library
    with k k' ne eq show False
      by (cases "kind_of r'") (auto simp: own_text_def)
  next
    case Found
    with k k' ne eq show False
      by (cases "kind_of r'") auto
  qed
qed

text \<open>
  C5.  The client returns the text \<open>user not found\<close> exactly when the response has status
  404.  Any other status but 200 gives a text that carries the status, a transport failure
  gives the connection text, a body that does not decode gives the decoder's text; and two
  outcomes of different kinds (two different statuses among them) never give the same result,
  so that a caller cannot take a service that is down for a user that is absent.  The
  hypothesis is about the library: its own error texts are none of the client's three.
\<close>

theorem GetUserByID_errors_distinguished:
  assumes "foreign_texts (net (BaseURL c @ ''/users/'' @ Itoa userID))"
  shows "(GetUserByID c net userID = Inl ''user not found''
            \<longleftrightarrow> (\<exists>b. net (BaseURL c @ ''/users/'' @ Itoa userID) = Response 404 b))
       \<and> (\<forall>code b. net (BaseURL c @ ''/users/'' @ Itoa userID) = Response code b
             \<longrightarrow> code \<noteq> 404 \<longrightarrow> code \<noteq> 200
             \<longrightarrow> GetUserByID c net userID = Inl (''user service returned status: '' @ Itoa code))
       \<and> (\<forall>e. net (BaseURL c @ ''/users/'' @ Itoa userID) = TransportError e
             \<longrightarrow> GetUserByID c net userID = Inl (''failed to connect to user service: '' @ e))
       \<and> (\<forall>e. net (BaseURL c @ ''/users/'' @ Itoa userID) = Response 200 (Undecodable e)
             \<longrightarrow> GetUserByID c net userID = Inl e)
       \<and> (\<forall>net'. foreign_texts (net' (BaseURL c @ ''/users/'' @ Itoa userID))
             \<longrightarrow> kind_of (net' (BaseURL c @ ''/users/'' @ Itoa userID))
                    \<noteq> kind_of (net (BaseURL c @ ''/users/'' @ Itoa userID))
             \<longrightarrow> GetUserByID c net' userID \<noteq> GetUserByID c net userID)"
proof (intro conjI allI impI)
  let ?r = "net (BaseURL c @ ''/users/'' @ Itoa userID)"
  show "GetUserByID c net userID = Inl ''user not found'' \<longleftrightarrow> (\<exists>b. ?r = Response 404 b)"
    using assms
    by (cases ?r)
       (auto simp: GetUserByID_def foreign_texts_def own_text_def split: if_splits decoded.splits)
next
  fix code b
  assume "net (BaseURL c @ ''/users/'' @ Itoa userID) = Response code b" "code \<noteq> 404" "code \<noteq> 200"
  then show "GetUserByID c net userID = Inl (''user service returned status: '' @ Itoa code)"
    by (simp add: GetUserByID_def)
next
  fix e
  assume "net (BaseURL c @ ''/users/'' @ Itoa userID) = TransportError e"
  then show "GetUserByID c net userID = Inl (''failed to connect to user service: '' @ e)"
    by (simp add: GetUserByID_def)
next
  fix e
  assume "net (BaseURL c @ ''/users/'' @ Itoa userID) = Response 200 (Undecodable e)"
  then show "GetUserByID c net userID = Inl e"
    by (simp add: GetUserByID_def)
next
  fix net'
  assume "foreign_texts (net' (BaseURL c @ ''/users/'' @ Itoa userID))"
    and "kind_of (net' (BaseURL c @ ''/users/'' @ Itoa userID))
           \<noteq> kind_of (net (BaseURL c @ ''/users/'' @ Itoa userID))"
  with assms show "GetUserByID c net' userID \<noteq> GetUserByID c net userID"
    by (rule kinds_differ [OF refl refl refl])
qed

theorem GetUserByID_errors_distinguished_witness:
  "foreign_texts (peer_absent (BaseURL userClient @ ''/users/'' @ Itoa 7))
   \<and> GetUserByID userClient peer_absent 7 = Inl ''user not found''
   \<and> foreign_texts (peer_down (BaseURL userClient @ ''/users/'' @ Itoa 7))
   \<and> GetUserByID userClient peer_down 7 = Inl ''failed to connect to user service: connection refused''
   \<and> GetUserByID userClient peer_down 7 \<noteq> GetUserByID userClient peer_absent 7
   \<and> foreign_texts (peer_broken (BaseURL userClient @ ''/users/'' @ Itoa 7))
   \<and> GetUserByID userClient peer_broken 7 = Inl ''user service returned status: 500''
   \<and> foreign_texts (peer_garbled (BaseURL userClient @ ''/users/'' @ Itoa 7))
   \<and> GetUserByID userClient peer_garbled 7 = Inl ''unexpected end of JSON input''"
proof -
  have a: "foreign_texts (peer_absent (BaseURL userClient @ ''/users/'' @ Itoa 7))"
    by (simp add: foreign_texts_def peer_absent_def)
  have d: "foreign_texts (peer_down (BaseURL userClient @ ''/users/'' @ Itoa 7))"
    by (simp add: foreign_texts_def peer_down_def)
  have b: "foreign_texts (peer_broken (BaseURL userClient @ ''/users/'' @ Itoa 7))"
    by (simp add: foreign_texts_def peer_broken_def)
  have g: "foreign_texts (peer_garbled (BaseURL userClient @ ''/users/'' @ Itoa 7))"
    by (simp add: foreign_texts_def peer_garbled_def own_text_def)
  have i: "Itoa 500 = ''500''" by code_simp
  show ?thesis
    using GetUserByID_errors_distinguished [where net = peer_absent and c = userClient and userID = 7]
      GetUserByID_errors_distinguished [where net = peer_down and c = userClient and userID = 7]
      GetUserByID_errors_distinguished [where net = peer_broken and c = userClient and userID = 7]
      GetUserByID_errors_distinguished [where net = peer_garbled and c = userClient and userID = 7]
      a d b g
    by (simp add: peer_absent_def peer_down_def peer_broken_def peer_garbled_def i)
qed

subsection \<open>The stores\<close>

lemma sint_succ: "sint (n :: go_int) < 2 ^ 63 - 1 \<Longrightarrow> sint (n + 1) = sint n + 1"
proof -
  assume a: "sint n < 2 ^ 63 - 1"
  have "- (2 ^ 63) \<le> sint n" using sint_ge [of n] by simp
  with a show ?thesis
    by (simp add: sint_word_ariths signed_take_bit_int_eq_self)
qed

lemma orders_init_ok: "orders_ok orders_init"
  by (simp add: orders_ok_def orders_init_def word_sless_alt)

lemma users_init_ok: "users_ok users_init"
  by (simp add: users_ok_def users_init_def word_sless_alt)

lemma createOrder_result:
  "createOrder net r st = (w, st') \<Longrightarrow> status w = 201 \<Longrightarrow>
     (\<exists>x. w = json_reply 201 (encodeOrder x) \<and> Order.ID x = order_store.nextID st
          \<and> st' = st\<lparr>orders := (orders st)(order_store.nextID st \<mapsto> x),
                     order_store.nextID := order_store.nextID st + 1\<rparr>)"
  by (auto simp: createOrder_def Let_def http_Error_def json_reply_def
           split: decoded.splits sum.splits)

lemma createOrder_unchanged:
  "createOrder net r st = (w, st') \<Longrightarrow> status w \<noteq> 201 \<Longrightarrow> st' = st \<and> status w = 400"
  by (auto simp: createOrder_def Let_def http_Error_def json_reply_def
           split: decoded.splits sum.splits)

lemma createUser_result:
  "createUser r st = (w, st') \<Longrightarrow> status w = 201 \<Longrightarrow>
     (\<exists>x. w = json_reply 201 (encodeUser x) \<and> User.ID x = user_store.nextID st
          \<and> st' = st\<lparr>users := (users st)(user_store.nextID st \<mapsto> x),
                     user_store.nextID := user_store.nextID st + 1\<rparr>)"
  by (auto simp: createUser_def Let_def http_Error_def json_reply_def
           split: decoded.splits sum.splits)

lemma createUser_unchanged:
  "createUser r st = (w, st') \<Longrightarrow> status w \<noteq> 201 \<Longrightarrow> st' = st \<and> status w = 400"
  by (auto simp: createUser_def Let_def http_Error_def json_reply_def
           split: decoded.splits sum.splits)

lemma serve_orders_post:
  "Path r = ''/orders'' \<Longrightarrow> Method r = ''POST'' \<Longrightarrow>
     serve_orders e r st = (Some (fst (createOrder (env_net e) r st)), snd (createOrder (env_net e) r st))"
  by (simp add: serve_orders_def split: prod.splits)

lemma serve_orders_reads:
  "\<not> (Path r = ''/orders'' \<and> Method r = ''POST'') \<Longrightarrow> snd (serve_orders e r st) = st"
  by (simp add: serve_orders_def)

lemma serve_users_post:
  "Path r = ''/users'' \<Longrightarrow> Method r = ''POST'' \<Longrightarrow>
     serve_users ks r st = (Some (fst (createUser r st)), snd (createUser r st))"
  by (simp add: serve_users_def split: prod.splits)

lemma serve_users_reads:
  "\<not> (Path r = ''/users'' \<and> Method r = ''POST'') \<Longrightarrow> snd (serve_users ks r st) = st"
  by (simp add: serve_users_def)

lemma serve_orders_step:
  assumes "serve_orders e r st = (w, st')"
  shows "st' = st \<or> (\<exists>x. w = Some (json_reply 201 (encodeOrder x)) \<and> Order.ID x = order_store.nextID st
          \<and> st' = st\<lparr>orders := (orders st)(order_store.nextID st \<mapsto> x),
                     order_store.nextID := order_store.nextID st + 1\<rparr>)"
proof (cases "Path r = ''/orders'' \<and> Method r = ''POST''")
  case True
  obtain w0 st0 where c: "createOrder (env_net e) r st = (w0, st0)" by (cases "createOrder (env_net e) r st")
  with True assms have eq: "w = Some w0" "st' = st0" by (simp_all add: serve_orders_post)
  show ?thesis
  proof (cases "status w0 = 201")
    case True
    from createOrder_result [OF c True] eq show ?thesis by auto
  next
    case False
    from createOrder_unchanged [OF c False] eq show ?thesis by simp
  qed
next
  case False
  from serve_orders_reads [OF False, of e st] assms show ?thesis by simp
qed

lemma serve_users_step:
  assumes "serve_users ks r st = (w, st')"
  shows "st' = st \<or> (\<exists>x. w = Some (json_reply 201 (encodeUser x)) \<and> User.ID x = user_store.nextID st
          \<and> st' = st\<lparr>users := (users st)(user_store.nextID st \<mapsto> x),
                     user_store.nextID := user_store.nextID st + 1\<rparr>)"
proof (cases "Path r = ''/users'' \<and> Method r = ''POST''")
  case True
  obtain w0 st0 where c: "createUser r st = (w0, st0)" by (cases "createUser r st")
  with True assms have eq: "w = Some w0" "st' = st0" by (simp_all add: serve_users_post)
  show ?thesis
  proof (cases "status w0 = 201")
    case True
    from createUser_result [OF c True] eq show ?thesis by auto
  next
    case False
    from createUser_unchanged [OF c False] eq show ?thesis by simp
  qed
next
  case False
  from serve_users_reads [OF False, of ks st] assms show ?thesis by simp
qed

lemma orders_ok_step:
  assumes ok: "orders_ok st" and room: "sint (order_store.nextID st) < 2 ^ 63 - 1"
    and s: "serve_orders e r st = (w, st')"
  shows "orders_ok st'
       \<and> sint (order_store.nextID st) \<le> sint (order_store.nextID st')
       \<and> sint (order_store.nextID st') \<le> sint (order_store.nextID st) + 1
       \<and> (\<forall>k x. orders st k = Some x \<longrightarrow> orders st' k = Some x)
       \<and> (\<forall>k. k \<in> dom (orders st') \<longrightarrow> k \<notin> dom (orders st) \<longrightarrow> k = order_store.nextID st)"
proof -
  from serve_orders_step [OF s] show ?thesis
  proof
    assume "st' = st"
    with ok show ?thesis by simp
  next
    assume "\<exists>x. w = Some (json_reply 201 (encodeOrder x)) \<and> Order.ID x = order_store.nextID st
          \<and> st' = st\<lparr>orders := (orders st)(order_store.nextID st \<mapsto> x),
                     order_store.nextID := order_store.nextID st + 1\<rparr>"
    then obtain x where x: "Order.ID x = order_store.nextID st"
      and st': "st' = st\<lparr>orders := (orders st)(order_store.nextID st \<mapsto> x),
                     order_store.nextID := order_store.nextID st + 1\<rparr>" by blast
    have fresh: "orders st (order_store.nextID st) = None"
    proof (cases "orders st (order_store.nextID st)")
      case (Some y)
      with ok have "order_store.nextID st <s order_store.nextID st" unfolding orders_ok_def by blast
      then show ?thesis by (simp add: word_sless_alt)
    qed simp
    have old: "Order.ID y = k \<and> sint k < sint (order_store.nextID st)"
      if "orders st k = Some y" for k y
      using ok that unfolding orders_ok_def word_sless_alt by blast
    have "orders_ok st'"
      unfolding orders_ok_def st' word_sless_alt using old x room
      by (auto simp: sint_succ dest: old)
    moreover have "\<forall>k y. orders st k = Some y \<longrightarrow> orders st' k = Some y"
      unfolding st' using fresh by auto
    moreover have "\<forall>k. k \<in> dom (orders st') \<longrightarrow> k \<notin> dom (orders st) \<longrightarrow> k = order_store.nextID st"
      unfolding st' by auto
    ultimately show ?thesis
      using room unfolding st' by (simp add: sint_succ)
  qed
qed

lemma users_ok_step:
  assumes ok: "users_ok st" and room: "sint (user_store.nextID st) < 2 ^ 63 - 1"
    and s: "serve_users ks r st = (w, st')"
  shows "users_ok st'
       \<and> sint (user_store.nextID st) \<le> sint (user_store.nextID st')
       \<and> sint (user_store.nextID st') \<le> sint (user_store.nextID st) + 1
       \<and> (\<forall>k x. users st k = Some x \<longrightarrow> users st' k = Some x)
       \<and> (\<forall>k. k \<in> dom (users st') \<longrightarrow> k \<notin> dom (users st) \<longrightarrow> k = user_store.nextID st)"
proof -
  from serve_users_step [OF s] show ?thesis
  proof
    assume "st' = st"
    with ok show ?thesis by simp
  next
    assume "\<exists>x. w = Some (json_reply 201 (encodeUser x)) \<and> User.ID x = user_store.nextID st
          \<and> st' = st\<lparr>users := (users st)(user_store.nextID st \<mapsto> x),
                     user_store.nextID := user_store.nextID st + 1\<rparr>"
    then obtain x where x: "User.ID x = user_store.nextID st"
      and st': "st' = st\<lparr>users := (users st)(user_store.nextID st \<mapsto> x),
                     user_store.nextID := user_store.nextID st + 1\<rparr>" by blast
    have fresh: "users st (user_store.nextID st) = None"
    proof (cases "users st (user_store.nextID st)")
      case (Some y)
      with ok have "user_store.nextID st <s user_store.nextID st" unfolding users_ok_def by blast
      then show ?thesis by (simp add: word_sless_alt)
    qed simp
    have old: "User.ID y = k \<and> sint k < sint (user_store.nextID st)"
      if "users st k = Some y" for k y
      using ok that unfolding users_ok_def word_sless_alt by blast
    have "users_ok st'"
      unfolding users_ok_def st' word_sless_alt using old x room
      by (auto simp: sint_succ dest: old)
    moreover have "\<forall>k y. users st k = Some y \<longrightarrow> users st' k = Some y"
      unfolding st' using fresh by auto
    moreover have "\<forall>k. k \<in> dom (users st') \<longrightarrow> k \<notin> dom (users st) \<longrightarrow> k = user_store.nextID st"
      unfolding st' by auto
    ultimately show ?thesis
      using room unfolding st' by (simp add: sint_succ)
  qed
qed

lemma orders_ok_step':
  assumes ok: "orders_ok st" and room: "sint (order_store.nextID st) < 2 ^ 63 - 1"
  shows "orders_ok (snd (serve_orders e r st))
       \<and> sint (order_store.nextID st) \<le> sint (order_store.nextID (snd (serve_orders e r st)))
       \<and> sint (order_store.nextID (snd (serve_orders e r st))) \<le> sint (order_store.nextID st) + 1
       \<and> (\<forall>k x. orders st k = Some x \<longrightarrow> orders (snd (serve_orders e r st)) k = Some x)
       \<and> (\<forall>k. k \<in> dom (orders (snd (serve_orders e r st))) \<longrightarrow> k \<notin> dom (orders st) \<longrightarrow> k = order_store.nextID st)"
  using orders_ok_step [OF ok room, of e r "fst (serve_orders e r st)" "snd (serve_orders e r st)"]
  by simp

lemma orders_ok_run:
  assumes "orders_ok st" "sint (order_store.nextID st) + int (length evs) < 2 ^ 63"
  shows "orders_ok (run_orders evs st)
       \<and> sint (order_store.nextID st) \<le> sint (order_store.nextID (run_orders evs st))
       \<and> sint (order_store.nextID (run_orders evs st)) \<le> sint (order_store.nextID st) + int (length evs)
       \<and> (\<forall>k x. orders st k = Some x \<longrightarrow> orders (run_orders evs st) k = Some x)
       \<and> (\<forall>k. k \<in> dom (orders (run_orders evs st)) \<longrightarrow> k \<notin> dom (orders st)
              \<longrightarrow> sint (order_store.nextID st) \<le> sint k)"
  using assms
proof (induction evs arbitrary: st)
  case Nil
  then show ?case by simp
next
  case (Cons a evs)
  obtain e r where a: "a = (e, r)" by (cases a)
  let ?s = "snd (serve_orders e r st)"
  from Cons.prems have room: "sint (order_store.nextID st) < 2 ^ 63 - 1" by simp
  note step = orders_ok_step' [OF Cons.prems(1) room, of e r]
  from step Cons.prems have "sint (order_store.nextID ?s) + int (length evs) < 2 ^ 63" by simp
  with step have ih: "orders_ok (run_orders evs ?s)
       \<and> sint (order_store.nextID ?s) \<le> sint (order_store.nextID (run_orders evs ?s))
       \<and> sint (order_store.nextID (run_orders evs ?s)) \<le> sint (order_store.nextID ?s) + int (length evs)
       \<and> (\<forall>k x. orders ?s k = Some x \<longrightarrow> orders (run_orders evs ?s) k = Some x)
       \<and> (\<forall>k. k \<in> dom (orders (run_orders evs ?s)) \<longrightarrow> k \<notin> dom (orders ?s)
              \<longrightarrow> sint (order_store.nextID ?s) \<le> sint k)"
    using Cons.IH [of ?s] by blast
  have new: "sint (order_store.nextID st) \<le> sint k"
    if "k \<in> dom (orders (run_orders evs ?s))" "k \<notin> dom (orders st)" for k
  proof (cases "k \<in> dom (orders ?s)")
    case True
    with step that have "k = order_store.nextID st" by blast
    then show ?thesis by simp
  next
    case False
    with ih that have "sint (order_store.nextID ?s) \<le> sint k" by blast
    with step show ?thesis by linarith
  qed
  from step ih new show ?case
    unfolding a by (simp del: dom_eq_empty_conv) 
qed

lemma users_ok_step':
  assumes ok: "users_ok st" and room: "sint (user_store.nextID st) < 2 ^ 63 - 1"
  shows "users_ok (snd (serve_users ks r st))
       \<and> sint (user_store.nextID st) \<le> sint (user_store.nextID (snd (serve_users ks r st)))
       \<and> sint (user_store.nextID (snd (serve_users ks r st))) \<le> sint (user_store.nextID st) + 1
       \<and> (\<forall>k x. users st k = Some x \<longrightarrow> users (snd (serve_users ks r st)) k = Some x)
       \<and> (\<forall>k. k \<in> dom (users (snd (serve_users ks r st))) \<longrightarrow> k \<notin> dom (users st) \<longrightarrow> k = user_store.nextID st)"
  using users_ok_step [OF ok room, of ks r "fst (serve_users ks r st)" "snd (serve_users ks r st)"]
  by simp

lemma users_ok_run:
  assumes "users_ok st" "sint (user_store.nextID st) + int (length evs) < 2 ^ 63"
  shows "users_ok (run_users evs st)
       \<and> sint (user_store.nextID st) \<le> sint (user_store.nextID (run_users evs st))
       \<and> sint (user_store.nextID (run_users evs st)) \<le> sint (user_store.nextID st) + int (length evs)
       \<and> (\<forall>k x. users st k = Some x \<longrightarrow> users (run_users evs st) k = Some x)
       \<and> (\<forall>k. k \<in> dom (users (run_users evs st)) \<longrightarrow> k \<notin> dom (users st)
              \<longrightarrow> sint (user_store.nextID st) \<le> sint k)"
  using assms
proof (induction evs arbitrary: st)
  case Nil
  then show ?case by simp
next
  case (Cons a evs)
  obtain ks r where a: "a = (ks, r)" by (cases a)
  let ?s = "snd (serve_users ks r st)"
  from Cons.prems have room: "sint (user_store.nextID st) < 2 ^ 63 - 1" by simp
  note step = users_ok_step' [OF Cons.prems(1) room, of ks r]
  from step Cons.prems have "sint (user_store.nextID ?s) + int (length evs) < 2 ^ 63" by simp
  with step have ih: "users_ok (run_users evs ?s)
       \<and> sint (user_store.nextID ?s) \<le> sint (user_store.nextID (run_users evs ?s))
       \<and> sint (user_store.nextID (run_users evs ?s)) \<le> sint (user_store.nextID ?s) + int (length evs)
       \<and> (\<forall>k x. users ?s k = Some x \<longrightarrow> users (run_users evs ?s) k = Some x)
       \<and> (\<forall>k. k \<in> dom (users (run_users evs ?s)) \<longrightarrow> k \<notin> dom (users ?s)
              \<longrightarrow> sint (user_store.nextID ?s) \<le> sint k)"
    using Cons.IH [of ?s] by blast
  have new: "sint (user_store.nextID st) \<le> sint k"
    if "k \<in> dom (users (run_users evs ?s))" "k \<notin> dom (users st)" for k
  proof (cases "k \<in> dom (users ?s)")
    case True
    with step that have "k = user_store.nextID st" by blast
    then show ?thesis by simp
  next
    case False
    with ih that have "sint (user_store.nextID ?s) \<le> sint k" by blast
    with step show ?thesis by linarith
  qed
  from step ih new show ?case
    unfolding a by (simp del: dom_eq_empty_conv) 
qed

lemma run_orders_append: "run_orders (evs @ evs') st = run_orders evs' (run_orders evs st)"
  by (induction evs arbitrary: st) auto

lemma run_users_append: "run_users (evs @ evs') st = run_users evs' (run_users evs st)"
  by (induction evs arbitrary: st) auto

lemma createOrder_created:
  assumes "createOrder net r st = (w, st')" "status w = 201"
  shows "\<exists>f. Body r = Object f
           \<and> w = json_reply 201 (encodeOrder ((decodeOrder f zeroOrder)\<lparr>Order.ID := order_store.nextID st\<rparr>))
           \<and> orders st' = (orders st)(order_store.nextID st \<mapsto>
                 (decodeOrder f zeroOrder)\<lparr>Order.ID := order_store.nextID st\<rparr>)
           \<and> order_store.nextID st' = order_store.nextID st + 1"
  using assms
  by (auto simp: createOrder_def Let_def http_Error_def json_reply_def
           split: decoded.splits sum.splits)

lemma createUser_created:
  assumes "createUser r st = (w, st')" "status w = 201"
  shows "\<exists>f. Body r = Object f
           \<and> w = json_reply 201 (encodeUser ((decodeUser f zeroUser)\<lparr>User.ID := user_store.nextID st\<rparr>))
           \<and> users st' = (users st)(user_store.nextID st \<mapsto>
                 (decodeUser f zeroUser)\<lparr>User.ID := user_store.nextID st\<rparr>)
           \<and> user_store.nextID st' = user_store.nextID st + 1"
  using assms
  by (auto simp: createUser_def Let_def http_Error_def json_reply_def
           split: decoded.splits sum.splits)

lemma orders_run_from_init:
  assumes "int (length evs) + int (length evs') < 2 ^ 63 - 3"
  shows "orders_ok (run_orders (evs @ evs') orders_init)
       \<and> order_store.nextID (run_orders evs orders_init) \<le>s order_store.nextID (run_orders (evs @ evs') orders_init)
       \<and> (\<forall>k x. orders (run_orders evs orders_init) k = Some x
              \<longrightarrow> orders (run_orders (evs @ evs') orders_init) k = Some x)
       \<and> (\<forall>k. k \<in> dom (orders (run_orders (evs @ evs') orders_init))
              \<longrightarrow> k \<notin> dom (orders (run_orders evs orders_init))
              \<longrightarrow> order_store.nextID (run_orders evs orders_init) \<le>s k)
       \<and> order_store.nextID (run_orders evs orders_init) \<notin> dom (orders (run_orders evs orders_init))
       \<and> (evs' \<noteq> [] \<longrightarrow> sint (order_store.nextID (run_orders evs orders_init) + 1)
                            = sint (order_store.nextID (run_orders evs orders_init)) + 1)"
proof -
  let ?s = "run_orders evs orders_init"
  have three: "sint (order_store.nextID orders_init) = 3" by (simp add: orders_init_def)
  from assms have "sint (order_store.nextID orders_init) + int (length evs) < 2 ^ 63"
    unfolding three by simp
  from orders_ok_run [OF orders_init_ok this]
  have ok: "orders_ok ?s" and le: "sint (order_store.nextID ?s) \<le> 3 + int (length evs)"
    unfolding three by simp_all
  from le assms have "sint (order_store.nextID ?s) + int (length evs') < 2 ^ 63" by simp
  from orders_ok_run [OF ok this]
  have run: "orders_ok (run_orders (evs @ evs') orders_init)
       \<and> order_store.nextID (run_orders evs orders_init) \<le>s order_store.nextID (run_orders (evs @ evs') orders_init)
       \<and> (\<forall>k x. orders (run_orders evs orders_init) k = Some x
              \<longrightarrow> orders (run_orders (evs @ evs') orders_init) k = Some x)
       \<and> (\<forall>k. k \<in> dom (orders (run_orders (evs @ evs') orders_init))
              \<longrightarrow> k \<notin> dom (orders (run_orders evs orders_init))
              \<longrightarrow> order_store.nextID (run_orders evs orders_init) \<le>s k)"
    unfolding run_orders_append word_sle_eq by simp
  have fresh: "order_store.nextID ?s \<notin> dom (orders ?s)"
  proof
    assume "order_store.nextID ?s \<in> dom (orders ?s)"
    then obtain x where "orders ?s (order_store.nextID ?s) = Some x" by blast
    with ok have "order_store.nextID ?s <s order_store.nextID ?s" unfolding orders_ok_def by blast
    then show False by (simp add: word_sless_alt)
  qed
  have "sint (order_store.nextID ?s + 1) = sint (order_store.nextID ?s) + 1" if "evs' \<noteq> []"
  proof -
    from that have "1 \<le> int (length evs')" by (cases evs') simp_all
    with le assms have "sint (order_store.nextID ?s) < 2 ^ 63 - 1" by linarith
    then show ?thesis by (rule sint_succ)
  qed
  with run fresh show ?thesis by blast
qed

lemma users_run_from_init:
  assumes "int (length evs) + int (length evs') < 2 ^ 63 - 3"
  shows "users_ok (run_users (evs @ evs') users_init)
       \<and> user_store.nextID (run_users evs users_init) \<le>s user_store.nextID (run_users (evs @ evs') users_init)
       \<and> (\<forall>k x. users (run_users evs users_init) k = Some x
              \<longrightarrow> users (run_users (evs @ evs') users_init) k = Some x)
       \<and> (\<forall>k. k \<in> dom (users (run_users (evs @ evs') users_init))
              \<longrightarrow> k \<notin> dom (users (run_users evs users_init))
              \<longrightarrow> user_store.nextID (run_users evs users_init) \<le>s k)
       \<and> user_store.nextID (run_users evs users_init) \<notin> dom (users (run_users evs users_init))
       \<and> (evs' \<noteq> [] \<longrightarrow> sint (user_store.nextID (run_users evs users_init) + 1)
                            = sint (user_store.nextID (run_users evs users_init)) + 1)"
proof -
  let ?s = "run_users evs users_init"
  have three: "sint (user_store.nextID users_init) = 3" by (simp add: users_init_def)
  from assms have "sint (user_store.nextID users_init) + int (length evs) < 2 ^ 63"
    unfolding three by simp
  from users_ok_run [OF users_init_ok this]
  have ok: "users_ok ?s" and le: "sint (user_store.nextID ?s) \<le> 3 + int (length evs)"
    unfolding three by simp_all
  from le assms have "sint (user_store.nextID ?s) + int (length evs') < 2 ^ 63" by simp
  from users_ok_run [OF ok this]
  have run: "users_ok (run_users (evs @ evs') users_init)
       \<and> user_store.nextID (run_users evs users_init) \<le>s user_store.nextID (run_users (evs @ evs') users_init)
       \<and> (\<forall>k x. users (run_users evs users_init) k = Some x
              \<longrightarrow> users (run_users (evs @ evs') users_init) k = Some x)
       \<and> (\<forall>k. k \<in> dom (users (run_users (evs @ evs') users_init))
              \<longrightarrow> k \<notin> dom (users (run_users evs users_init))
              \<longrightarrow> user_store.nextID (run_users evs users_init) \<le>s k)"
    unfolding run_users_append word_sle_eq by simp
  have fresh: "user_store.nextID ?s \<notin> dom (users ?s)"
  proof
    assume "user_store.nextID ?s \<in> dom (users ?s)"
    then obtain x where "users ?s (user_store.nextID ?s) = Some x" by blast
    with ok have "user_store.nextID ?s <s user_store.nextID ?s" unfolding users_ok_def by blast
    then show False by (simp add: word_sless_alt)
  qed
  have "sint (user_store.nextID ?s + 1) = sint (user_store.nextID ?s) + 1" if "evs' \<noteq> []"
  proof -
    from that have "1 \<le> int (length evs')" by (cases evs') simp_all
    with le assms have "sint (user_store.nextID ?s) < 2 ^ 63 - 1" by linarith
    then show ?thesis by (rule sint_succ)
  qed
  with run fresh show ?thesis by blast
qed

text \<open>
  C6.  A create that succeeds returns the payload with its id replaced by the counter's value
  before the call, stores that record under that key, and adds one to the counter; this holds
  for orders and for users, whatever id the payload carried.  Over a run from the seeded
  store (of fewer than \<open>2^63 - 3\<close> requests, so that the 64-bit counter cannot wrap): every
  stored record carries its key as id and lies below the counter, the counter never
  decreases, a record once stored stays as it is, every key added later is at or above the
  counter of the earlier state, the counter's value is not a key of the store, and the next
  increment does not wrap.
\<close>

theorem ids_assigned_from_counter:
  "(createOrder net r st = (w, st') \<longrightarrow> status w = 201 \<longrightarrow>
      (\<exists>f. Body r = Object f
          \<and> w = json_reply 201 (encodeOrder ((decodeOrder f zeroOrder)\<lparr>Order.ID := order_store.nextID st\<rparr>))
          \<and> orders st' = (orders st)(order_store.nextID st \<mapsto>
                (decodeOrder f zeroOrder)\<lparr>Order.ID := order_store.nextID st\<rparr>)
          \<and> order_store.nextID st' = order_store.nextID st + 1))
   \<and> (createUser ur ust = (uw, ust') \<longrightarrow> status uw = 201 \<longrightarrow>
      (\<exists>f. Body ur = Object f
          \<and> uw = json_reply 201 (encodeUser ((decodeUser f zeroUser)\<lparr>User.ID := user_store.nextID ust\<rparr>))
          \<and> users ust' = (users ust)(user_store.nextID ust \<mapsto>
                (decodeUser f zeroUser)\<lparr>User.ID := user_store.nextID ust\<rparr>)
          \<and> user_store.nextID ust' = user_store.nextID ust + 1))
   \<and> (int (length evs) + int (length evs') < 2 ^ 63 - 3 \<longrightarrow>
        orders_ok (run_orders (evs @ evs') orders_init)
      \<and> order_store.nextID (run_orders evs orders_init)
           \<le>s order_store.nextID (run_orders (evs @ evs') orders_init)
      \<and> (\<forall>k x. orders (run_orders evs orders_init) k = Some x
             \<longrightarrow> orders (run_orders (evs @ evs') orders_init) k = Some x)
      \<and> (\<forall>k. k \<in> dom (orders (run_orders (evs @ evs') orders_init))
             \<longrightarrow> k \<notin> dom (orders (run_orders evs orders_init))
             \<longrightarrow> order_store.nextID (run_orders evs orders_init) \<le>s k)
      \<and> order_store.nextID (run_orders evs orders_init) \<notin> dom (orders (run_orders evs orders_init))
      \<and> (evs' \<noteq> [] \<longrightarrow> sint (order_store.nextID (run_orders evs orders_init) + 1)
                           = sint (order_store.nextID (run_orders evs orders_init)) + 1))
   \<and> (int (length uvs) + int (length uvs') < 2 ^ 63 - 3 \<longrightarrow>
        users_ok (run_users (uvs @ uvs') users_init)
      \<and> user_store.nextID (run_users uvs users_init)
           \<le>s user_store.nextID (run_users (uvs @ uvs') users_init)
      \<and> (\<forall>k x. users (run_users uvs users_init) k = Some x
             \<longrightarrow> users (run_users (uvs @ uvs') users_init) k = Some x)
      \<and> (\<forall>k. k \<in> dom (users (run_users (uvs @ uvs') users_init))
             \<longrightarrow> k \<notin> dom (users (run_users uvs users_init))
             \<longrightarrow> user_store.nextID (run_users uvs users_init) \<le>s k)
      \<and> user_store.nextID (run_users uvs users_init) \<notin> dom (users (run_users uvs users_init))
      \<and> (uvs' \<noteq> [] \<longrightarrow> sint (user_store.nextID (run_users uvs users_init) + 1)
                           = sint (user_store.nextID (run_users uvs users_init)) + 1))"
  using createOrder_created [of net r st w st'] createUser_created [of ur ust uw ust']
    orders_run_from_init [of evs evs'] users_run_from_init [of uvs uvs']
  by blast

lemma created_book:
  "createOrder peer_found post_order orders_init =
     (json_reply 201 (encodeOrder ((decodeOrder book zeroOrder)\<lparr>Order.ID := 3\<rparr>)),
      orders_init\<lparr>orders := (orders orders_init)(3 \<mapsto> (decodeOrder book zeroOrder)\<lparr>Order.ID := 3\<rparr>),
                  order_store.nextID := 4\<rparr>)"
  by (simp add: createOrder_def GetUserByID_def peer_found_def post_order_def orders_init_def Let_def)

lemma created_bob:
  "status (fst (createUser post_user users_init)) = 201"
  by (simp add: createUser_def post_user_def Let_def json_reply_def)

theorem ids_assigned_from_counter_witness:
  "status (fst (createOrder peer_found post_order orders_init)) = 201
   \<and> order_store.nextID (snd (createOrder peer_found post_order orders_init)) = 3 + 1
   \<and> status (fst (createUser post_user users_init)) = 201
   \<and> user_store.nextID (snd (createUser post_user users_init)) = 3 + 1
   \<and> int (length [(world_up, post_order)]) + int (length [(world_down, post_order)]) < 2 ^ 63 - 3
   \<and> orders_ok (run_orders ([(world_up, post_order)] @ [(world_down, post_order)]) orders_init)
   \<and> order_store.nextID (run_orders [(world_up, post_order)] orders_init)
        \<notin> dom (orders (run_orders [(world_up, post_order)] orders_init))
   \<and> int (length [([1, 2 :: go_int], post_user)]) + int (length [([1, 2, 3 :: go_int], post_user)])
         < 2 ^ 63 - 3
   \<and> users_ok (run_users ([([1, 2], post_user)] @ [([1, 2, 3], post_user)]) users_init)"
proof -
  have o: "status (fst (createOrder peer_found post_order orders_init)) = 201"
    by (simp add: created_book json_reply_def)
  have u: "status (fst (createUser post_user users_init)) = 201"
    by (rule created_bob)
  have n: "order_store.nextID orders_init = 3" "user_store.nextID users_init = 3"
    by (simp_all add: orders_init_def users_init_def)
  have bo: "int (length [(world_up, post_order)]) + int (length [(world_down, post_order)]) < 2 ^ 63 - 3"
    and bu: "int (length [([1, 2 :: go_int], post_user)]) + int (length [([1, 2, 3 :: go_int], post_user)]) < 2 ^ 63 - 3"
    by simp_all
  note t = ids_assigned_from_counter [where net = peer_found and r = post_order and st = orders_init
        and w = "fst (createOrder peer_found post_order orders_init)"
        and st' = "snd (createOrder peer_found post_order orders_init)"
        and ur = post_user and ust = users_init
        and uw = "fst (createUser post_user users_init)"
        and ust' = "snd (createUser post_user users_init)"
        and evs = "[(world_up, post_order)]" and evs' = "[(world_down, post_order)]"
        and uvs = "[([1, 2], post_user)]" and uvs' = "[([1, 2, 3], post_user)]"]
  from t o have "order_store.nextID (snd (createOrder peer_found post_order orders_init))
                   = order_store.nextID orders_init + 1"
    by (metis prod.collapse)
  moreover from t u have "user_store.nextID (snd (createUser post_user users_init))
                   = user_store.nextID users_init + 1"
    by (metis prod.collapse)
  moreover from t bo
  have "orders_ok (run_orders ([(world_up, post_order)] @ [(world_down, post_order)]) orders_init)"
    and "order_store.nextID (run_orders [(world_up, post_order)] orders_init)
        \<notin> dom (orders (run_orders [(world_up, post_order)] orders_init))"
    by blast+
  moreover from t bu
  have "users_ok (run_users ([([1, 2], post_user)] @ [([1, 2, 3], post_user)]) users_init)"
    by blast
  ultimately show ?thesis
    using o u bo bu unfolding n by blast
qed

subsection \<open>Routing and rejection\<close>

lemma under_orders:
  "prefix ''/orders/'' p \<Longrightarrow> p \<noteq> ''/orders'' \<and> \<not> length p < length ''/orders/''"
  by (auto simp: prefix_def)

lemma under_users:
  "prefix ''/users/'' p \<Longrightarrow> p \<noteq> ''/users'' \<and> \<not> length p < length ''/users/''"
  by (auto simp: prefix_def)

lemma serve_orders_sub:
  "prefix ''/orders/'' (Path r) \<Longrightarrow> serve_orders e r st = (getOrderByID (env_net e) r st, st)"
  using under_orders [of "Path r"] by (simp add: serve_orders_def)

lemma serve_users_sub:
  "prefix ''/users/'' (Path r) \<Longrightarrow> serve_users ks r st = (getUserByID r st, st)"
  using under_users [of "Path r"] by (simp add: serve_users_def)

lemma serve_orders_unchanged:
  assumes "serve_orders e r st = (Some w, st')" "status w \<noteq> 201"
  shows "st' = st"
  using serve_orders_step [OF assms(1)] assms(2) by (auto simp: json_reply_def)

lemma serve_users_unchanged:
  assumes "serve_users ks r st = (Some w, st')" "status w \<noteq> 201"
  shows "st' = st"
  using serve_users_step [OF assms(1)] assms(2) by (auto simp: json_reply_def)

lemma getOrderByID_bad_id:
  "prefix ''/orders/'' (Path r) \<Longrightarrow> Atoi (drop (length ''/orders/'') (Path r)) = None \<Longrightarrow>
     getOrderByID net r st = Some (http_Error ''Invalid order ID'' 400)"
  using under_orders [of "Path r"] by (simp add: getOrderByID_def)

lemma getOrderByID_absent:
  "prefix ''/orders/'' (Path r) \<Longrightarrow> Atoi (drop (length ''/orders/'') (Path r)) = Some i \<Longrightarrow>
     orders st i = None \<Longrightarrow> getOrderByID net r st = Some (http_Error ''Order not found'' 404)"
  using under_orders [of "Path r"] by (simp add: getOrderByID_def)

lemma getUserByID_bad_id:
  "prefix ''/users/'' (Path r) \<Longrightarrow> Atoi (drop (length ''/users/'') (Path r)) = None \<Longrightarrow>
     getUserByID r st = Some (http_Error ''Invalid user ID'' 400)"
  using under_users [of "Path r"] by (simp add: getUserByID_def)

lemma getUserByID_absent:
  "prefix ''/users/'' (Path r) \<Longrightarrow> Atoi (drop (length ''/users/'') (Path r)) = Some i \<Longrightarrow>
     users st i = None \<Longrightarrow> getUserByID r st = Some (http_Error ''User not found'' 404)"
  using under_users [of "Path r"] by (simp add: getUserByID_def)

text \<open>
  C7.  A request that is not answered with 201 leaves the store as it was, in both services.
  A malformed id and an undecodable body are answered with 400 and a response that does not
  depend on the store; an id that is not in the store is answered with 404.
\<close>

theorem rejected_requests_leave_store:
  "(serve_orders e r st = (Some w, st') \<longrightarrow> status w \<noteq> 201 \<longrightarrow> st' = st)
   \<and> (serve_users ks ur ust = (Some uw, ust') \<longrightarrow> status uw \<noteq> 201 \<longrightarrow> ust' = ust)
   \<and> (prefix ''/orders/'' (Path r) \<longrightarrow> Atoi (drop (length ''/orders/'') (Path r)) = None
        \<longrightarrow> serve_orders e r st = (Some (http_Error ''Invalid order ID'' 400), st))
   \<and> (prefix ''/users/'' (Path ur) \<longrightarrow> Atoi (drop (length ''/users/'') (Path ur)) = None
        \<longrightarrow> serve_users ks ur ust = (Some (http_Error ''Invalid user ID'' 400), ust))
   \<and> (Path r = ''/orders'' \<longrightarrow> Method r = ''POST'' \<longrightarrow> Body r = Undecodable msg
        \<longrightarrow> serve_orders e r st = (Some (http_Error msg 400), st))
   \<and> (Path ur = ''/users'' \<longrightarrow> Method ur = ''POST'' \<longrightarrow> Body ur = Undecodable msg
        \<longrightarrow> serve_users ks ur ust = (Some (http_Error msg 400), ust))
   \<and> (prefix ''/orders/'' (Path r) \<longrightarrow> Atoi (drop (length ''/orders/'') (Path r)) = Some i
        \<longrightarrow> orders st i = None
        \<longrightarrow> serve_orders e r st = (Some (http_Error ''Order not found'' 404), st))
   \<and> (prefix ''/users/'' (Path ur) \<longrightarrow> Atoi (drop (length ''/users/'') (Path ur)) = Some i
        \<longrightarrow> users ust i = None
        \<longrightarrow> serve_users ks ur ust = (Some (http_Error ''User not found'' 404), ust))"
proof (intro conjI impI)
  show "st' = st" if "serve_orders e r st = (Some w, st')" "status w \<noteq> 201"
    using that by (rule serve_orders_unchanged)
  show "ust' = ust" if "serve_users ks ur ust = (Some uw, ust')" "status uw \<noteq> 201"
    using that by (rule serve_users_unchanged)
  show "serve_orders e r st = (Some (http_Error ''Invalid order ID'' 400), st)"
    if "prefix ''/orders/'' (Path r)" "Atoi (drop (length ''/orders/'') (Path r)) = None"
    using that by (simp only: serve_orders_sub getOrderByID_bad_id)
  show "serve_users ks ur ust = (Some (http_Error ''Invalid user ID'' 400), ust)"
    if "prefix ''/users/'' (Path ur)" "Atoi (drop (length ''/users/'') (Path ur)) = None"
    using that by (simp only: serve_users_sub getUserByID_bad_id)
  show "serve_orders e r st = (Some (http_Error msg 400), st)"
    if "Path r = ''/orders''" "Method r = ''POST''" "Body r = Undecodable msg"
    using that by (simp add: serve_orders_def createOrder_def)
  show "serve_users ks ur ust = (Some (http_Error msg 400), ust)"
    if "Path ur = ''/users''" "Method ur = ''POST''" "Body ur = Undecodable msg"
    using that by (simp add: serve_users_def createUser_def)
  show "serve_orders e r st = (Some (http_Error ''Order not found'' 404), st)"
    if "prefix ''/orders/'' (Path r)" "Atoi (drop (length ''/orders/'') (Path r)) = Some i"
      "orders st i = None"
    using that by (simp only: serve_orders_sub getOrderByID_absent)
  show "serve_users ks ur ust = (Some (http_Error ''User not found'' 404), ust)"
    if "prefix ''/users/'' (Path ur)" "Atoi (drop (length ''/users/'') (Path ur)) = Some i"
      "users ust i = None"
    using that by (simp only: serve_users_sub getUserByID_absent)
qed

lemma atoi_abc: "Atoi (drop (length ''/orders/'') ''/orders/abc'') = None"
  by (simp add: Atoi_def digit_val_def)

lemma atoi_7: "Atoi (drop (length ''/orders/'') ''/orders/7'') = Some 7"
  by (simp add: Atoi_def digit_val_def)

lemma atoi_u_abc: "Atoi (drop (length ''/users/'') ''/users/abc'') = None"
  by (simp add: Atoi_def digit_val_def)

lemma atoi_u_7: "Atoi (drop (length ''/users/'') ''/users/7'') = Some 7"
  by (simp add: Atoi_def digit_val_def)

theorem rejected_requests_leave_store_witness:
  "serve_orders world_down (get_order ''/orders/abc'') orders_init
     = (Some (http_Error ''Invalid order ID'' 400), orders_init)
   \<and> serve_orders world_down bad_post_order orders_init
     = (Some (http_Error ''unexpected end of JSON input'' 400), orders_init)
   \<and> serve_orders world_down (get_order ''/orders/7'') orders_init
     = (Some (http_Error ''Order not found'' 404), orders_init)
   \<and> serve_users [1, 2] (get_user ''/users/abc'') users_init
     = (Some (http_Error ''Invalid user ID'' 400), users_init)
   \<and> serve_users [1, 2] bad_post_user users_init
     = (Some (http_Error ''unexpected end of JSON input'' 400), users_init)
   \<and> serve_users [1, 2] (get_user ''/users/7'') users_init
     = (Some (http_Error ''User not found'' 404), users_init)"
proof -
  have p: "prefix ''/orders/'' (Path (get_order ''/orders/abc''))"
    "prefix ''/orders/'' (Path (get_order ''/orders/7''))"
    "prefix ''/users/'' (Path (get_user ''/users/abc''))"
    "prefix ''/users/'' (Path (get_user ''/users/7''))"
    by (simp_all add: get_order_def get_user_def)
  have a: "Atoi (drop (length ''/orders/'') (Path (get_order ''/orders/abc''))) = None"
    "Atoi (drop (length ''/orders/'') (Path (get_order ''/orders/7''))) = Some 7"
    "Atoi (drop (length ''/users/'') (Path (get_user ''/users/abc''))) = None"
    "Atoi (drop (length ''/users/'') (Path (get_user ''/users/7''))) = Some 7"
    using atoi_abc atoi_7 atoi_u_abc atoi_u_7 by (simp_all add: get_order_def get_user_def)
  have n: "orders orders_init 7 = None" "users users_init 7 = None"
    by (simp_all add: orders_init_def users_init_def)
  have b: "Path bad_post_order = ''/orders''" "Method bad_post_order = ''POST''"
    "Body bad_post_order = Undecodable ''unexpected end of JSON input''"
    "Path bad_post_user = ''/users''" "Method bad_post_user = ''POST''"
    "Body bad_post_user = Undecodable ''unexpected end of JSON input''"
    by (simp_all add: bad_post_order_def bad_post_user_def)
  note t1 = rejected_requests_leave_store [where r = "get_order ''/orders/abc''" and e = world_down
      and st = orders_init and ur = "get_user ''/users/abc''" and ks = "[1, 2]" and ust = users_init]
  note t2 = rejected_requests_leave_store [where r = bad_post_order and e = world_down
      and st = orders_init and ur = bad_post_user and ks = "[1, 2]" and ust = users_init
      and msg = "''unexpected end of JSON input''"]
  note t3 = rejected_requests_leave_store [where r = "get_order ''/orders/7''" and e = world_down
      and st = orders_init and ur = "get_user ''/users/7''" and ks = "[1, 2]" and ust = users_init
      and i = 7]
  from t1 p a have "serve_orders world_down (get_order ''/orders/abc'') orders_init
     = (Some (http_Error ''Invalid order ID'' 400), orders_init)"
    and "serve_users [1, 2] (get_user ''/users/abc'') users_init
     = (Some (http_Error ''Invalid user ID'' 400), users_init)"
    by blast+
  moreover from t2 b have "serve_orders world_down bad_post_order orders_init
     = (Some (http_Error ''unexpected end of JSON input'' 400), orders_init)"
    and "serve_users [1, 2] bad_post_user users_init
     = (Some (http_Error ''unexpected end of JSON input'' 400), users_init)"
    by blast+
  moreover from t3 p a n have "serve_orders world_down (get_order ''/orders/7'') orders_init
     = (Some (http_Error ''Order not found'' 404), orders_init)"
    and "serve_users [1, 2] (get_user ''/users/7'') users_init
     = (Some (http_Error ''User not found'' 404), users_init)"
    by blast+
  ultimately show ?thesis by blast
qed

subsection \<open>Creating an order\<close>

lemma createOrder_peer_error:
  assumes "Body r = Object f"
    and "GetUserByID userClient net (UserID (decodeOrder f zeroOrder)) = Inl err"
  shows "createOrder net r st
           = (http_Error (''User not found or service unavailable: '' @ err) 400, st)"
  using assms by (simp add: createOrder_def)

lemma createOrder_peer_ok:
  assumes "Body r = Object f"
    and "GetUserByID userClient net (UserID (decodeOrder f zeroOrder)) = Inr u"
  shows "createOrder net r st
           = (json_reply 201 (encodeOrder ((decodeOrder f zeroOrder)\<lparr>Order.ID := order_store.nextID st\<rparr>)),
              st\<lparr>orders := (orders st)(order_store.nextID st \<mapsto>
                     (decodeOrder f zeroOrder)\<lparr>Order.ID := order_store.nextID st\<rparr>),
                 order_store.nextID := order_store.nextID st + 1\<rparr>)"
  using assms by (simp add: createOrder_def Let_def)

lemma store_changed:
  "st\<lparr>orders := m, order_store.nextID := order_store.nextID st + 1\<rparr> \<noteq> st"
proof
  assume "st\<lparr>orders := m, order_store.nextID := order_store.nextID st + 1\<rparr> = st"
  then have "order_store.nextID (st\<lparr>orders := m, order_store.nextID := order_store.nextID st + 1\<rparr>)
               = order_store.nextID st" by simp
  then show False by simp
qed

text \<open>
  C4.  A create-order request whose body decodes: when the client returns an error for the
  owner of the payload, the answer is 400 with the text
  \<open>User not found or service unavailable: \<close> followed by the client's error text, and the
  store is as before; when the client returns a user, the answer is 201 with the stored
  record, which is the payload with the counter as id.  The store changes exactly when the
  client succeeded.
\<close>

theorem createOrder_needs_peer:
  assumes "Path r = ''/orders''" and "Method r = ''POST''" and "Body r = Object f"
  shows "(\<forall>err. GetUserByID userClient (env_net e) (UserID (decodeOrder f zeroOrder)) = Inl err
            \<longrightarrow> serve_orders e r st
                  = (Some (http_Error (''User not found or service unavailable: '' @ err) 400), st))
       \<and> (\<forall>u. GetUserByID userClient (env_net e) (UserID (decodeOrder f zeroOrder)) = Inr u
            \<longrightarrow> serve_orders e r st
                  = (Some (json_reply 201
                       (encodeOrder ((decodeOrder f zeroOrder)\<lparr>Order.ID := order_store.nextID st\<rparr>))),
                     st\<lparr>orders := (orders st)(order_store.nextID st \<mapsto>
                            (decodeOrder f zeroOrder)\<lparr>Order.ID := order_store.nextID st\<rparr>),
                        order_store.nextID := order_store.nextID st + 1\<rparr>))
       \<and> (snd (serve_orders e r st) \<noteq> st
            \<longleftrightarrow> (\<exists>u. GetUserByID userClient (env_net e) (UserID (decodeOrder f zeroOrder)) = Inr u))"
proof (intro conjI allI impI)
  fix err
  assume "GetUserByID userClient (env_net e) (UserID (decodeOrder f zeroOrder)) = Inl err"
  with assms show "serve_orders e r st
      = (Some (http_Error (''User not found or service unavailable: '' @ err) 400), st)"
    by (simp add: serve_orders_post createOrder_peer_error)
next
  fix u
  assume "GetUserByID userClient (env_net e) (UserID (decodeOrder f zeroOrder)) = Inr u"
  with assms show "serve_orders e r st
      = (Some (json_reply 201
           (encodeOrder ((decodeOrder f zeroOrder)\<lparr>Order.ID := order_store.nextID st\<rparr>))),
         st\<lparr>orders := (orders st)(order_store.nextID st \<mapsto>
                (decodeOrder f zeroOrder)\<lparr>Order.ID := order_store.nextID st\<rparr>),
            order_store.nextID := order_store.nextID st + 1\<rparr>)"
    by (simp add: serve_orders_post createOrder_peer_ok [where u = u])
next
  show "snd (serve_orders e r st) \<noteq> st
      \<longleftrightarrow> (\<exists>u. GetUserByID userClient (env_net e) (UserID (decodeOrder f zeroOrder)) = Inr u)"
  proof (cases "GetUserByID userClient (env_net e) (UserID (decodeOrder f zeroOrder))")
    case (Inl err)
    with assms show ?thesis by (simp add: serve_orders_post createOrder_peer_error)
  next
    case (Inr u)
    with assms show ?thesis
      by (simp add: serve_orders_post createOrder_peer_ok [where u = u] store_changed)
  qed
qed

theorem createOrder_needs_peer_witness:
  "serve_orders world_down post_order orders_init
     = (Some (http_Error (''User not found or service unavailable: ''
                @ ''failed to connect to user service: connection refused'') 400), orders_init)
   \<and> serve_orders world_up post_order orders_init
     = (Some (json_reply 201 (encodeOrder ((decodeOrder book zeroOrder)\<lparr>Order.ID := 3\<rparr>))),
        orders_init\<lparr>orders := (orders orders_init)(3 \<mapsto> (decodeOrder book zeroOrder)\<lparr>Order.ID := 3\<rparr>),
                    order_store.nextID := 3 + 1\<rparr>)"
proof -
  have r: "Path post_order = ''/orders''" "Method post_order = ''POST''" "Body post_order = Object book"
    by (simp_all add: post_order_def)
  have d: "GetUserByID userClient (env_net world_down) (UserID (decodeOrder book zeroOrder))
             = Inl ''failed to connect to user service: connection refused''"
    by (simp add: GetUserByID_def world_down_def peer_down_def)
  have u: "GetUserByID userClient (env_net world_up) (UserID (decodeOrder book zeroOrder))
             = Inr (decodeUser alice zeroUser)"
    by (simp add: GetUserByID_def world_up_def peer_found_def)
  have n: "order_store.nextID orders_init = 3" by (simp add: orders_init_def)
  from createOrder_needs_peer [OF r, of world_down orders_init] d
  have "serve_orders world_down post_order orders_init
     = (Some (http_Error (''User not found or service unavailable: ''
                @ ''failed to connect to user service: connection refused'') 400), orders_init)"
    by blast
  moreover from createOrder_needs_peer [OF r, of world_up orders_init] u
  have "serve_orders world_up post_order orders_init
     = (Some (json_reply 201 (encodeOrder ((decodeOrder book zeroOrder)\<lparr>Order.ID := order_store.nextID orders_init\<rparr>))),
        orders_init\<lparr>orders := (orders orders_init)(order_store.nextID orders_init \<mapsto>
             (decodeOrder book zeroOrder)\<lparr>Order.ID := order_store.nextID orders_init\<rparr>),
                    order_store.nextID := order_store.nextID orders_init + 1\<rparr>)"
    by blast
  ultimately show ?thesis unfolding n by blast
qed

lemma Itoa_0: "Itoa 0 = ''0''"
  by code_simp

lemma GetUserByID_reads_one_url:
  "net' (BaseURL c @ ''/users/'' @ Itoa i) = net (BaseURL c @ ''/users/'' @ Itoa i)
     \<Longrightarrow> GetUserByID c net' i = GetUserByID c net i"
  by (simp add: GetUserByID_def)

lemma createOrder_status:
  "status (fst (createOrder net r st)) = 201 \<or> status (fst (createOrder net r st)) = 400"
  by (simp add: createOrder_def Let_def http_Error_def json_reply_def
           split: decoded.splits sum.splits)

text \<open>
  C10.  A create-order body that decodes and has no member \<open>user_id\<close> leaves the owner at
  0: the request reads the network at the URL of user 0 and nowhere else, is answered with
  201 and stored when that lookup succeeds, and with 400 carrying the client's error when it
  fails.
\<close>

theorem missing_user_id_is_user_0:
  assumes "Path r = ''/orders''" and "Method r = ''POST''" and "Body r = Object f"
    and "o_user_id f = None"
  shows "UserID (decodeOrder f zeroOrder) = 0
       \<and> (\<forall>e'. env_net e' (BaseURL userClient @ ''/users/0'') = env_net e (BaseURL userClient @ ''/users/0'')
             \<longrightarrow> serve_orders e' r st = serve_orders e r st)
       \<and> (\<forall>u. GetUserByID userClient (env_net e) 0 = Inr u
             \<longrightarrow> (\<exists>w st'. serve_orders e r st = (Some w, st') \<and> status w = 201
                     \<and> orders st' (order_store.nextID st)
                         = Some ((decodeOrder f zeroOrder)\<lparr>Order.ID := order_store.nextID st\<rparr>)))
       \<and> (\<forall>err. GetUserByID userClient (env_net e) 0 = Inl err
             \<longrightarrow> serve_orders e r st
                   = (Some (http_Error (''User not found or service unavailable: '' @ err) 400), st))"
proof -
  from assms(4) have z: "UserID (decodeOrder f zeroOrder) = 0"
    by (simp add: decodeOrder_def assign_def zeroOrder_def)
  have same: "serve_orders e' r st = serve_orders e r st"
    if "env_net e' (BaseURL userClient @ ''/users/0'') = env_net e (BaseURL userClient @ ''/users/0'')"
    for e'
  proof -
    from that have "GetUserByID userClient (env_net e') 0 = GetUserByID userClient (env_net e) 0"
      by (intro GetUserByID_reads_one_url) (simp add: Itoa_0)
    with assms z show ?thesis
      by (simp add: serve_orders_post createOrder_def)
  qed
  have ok: "\<exists>w st'. serve_orders e r st = (Some w, st') \<and> status w = 201
                     \<and> orders st' (order_store.nextID st)
                         = Some ((decodeOrder f zeroOrder)\<lparr>Order.ID := order_store.nextID st\<rparr>)"
    if "GetUserByID userClient (env_net e) 0 = Inr u" for u
    using that assms(1-3) z
    by (simp add: serve_orders_post createOrder_peer_ok [where u = u] json_reply_def)
  have bad: "serve_orders e r st
                   = (Some (http_Error (''User not found or service unavailable: '' @ err) 400), st)"
    if "GetUserByID userClient (env_net e) 0 = Inl err" for err
    using that assms(1-3) z
    by (simp add: serve_orders_post createOrder_peer_error)
  from z same ok bad show ?thesis by blast
qed

theorem missing_user_id_is_user_0_witness:
  "UserID (decodeOrder \<lparr>o_id = None, o_user_id = None, o_product = Some ''Pen'',
                         o_quantity = Some 2, o_status = None, o_user = None\<rparr> zeroOrder) = 0
   \<and> status (the (fst (serve_orders world_zero post_no_owner orders_init))) = 201
   \<and> serve_orders world_down post_no_owner orders_init
       = (Some (http_Error (''User not found or service unavailable: ''
                  @ ''failed to connect to user service: connection refused'') 400), orders_init)"
proof -
  have r: "Path post_no_owner = ''/orders''" "Method post_no_owner = ''POST''"
    "Body post_no_owner = Object \<lparr>o_id = None, o_user_id = None, o_product = Some ''Pen'',
                         o_quantity = Some 2, o_status = None, o_user = None\<rparr>"
    "o_user_id \<lparr>o_id = None, o_user_id = None, o_product = Some ''Pen'',
                         o_quantity = Some 2, o_status = None, o_user = None\<rparr> = None"
    by (simp_all add: post_no_owner_def)
  have z: "GetUserByID userClient (env_net world_zero) 0 = Inr (decodeUser alice zeroUser)"
    by (simp add: GetUserByID_def world_zero_def peer_zero_only_def userClient_def Itoa_0)
  have d: "GetUserByID userClient (env_net world_down) 0
             = Inl ''failed to connect to user service: connection refused''"
    by (simp add: GetUserByID_def world_down_def peer_down_def)
  note t = missing_user_id_is_user_0 [OF r]
  from t [of world_zero orders_init] z
  have "\<exists>w st'. serve_orders world_zero post_no_owner orders_init = (Some w, st') \<and> status w = 201"
    by blast
  then have "status (the (fst (serve_orders world_zero post_no_owner orders_init))) = 201"
    by auto
  moreover from t [of world_down orders_init] d
  have "serve_orders world_down post_no_owner orders_init
       = (Some (http_Error (''User not found or service unavailable: ''
                  @ ''failed to connect to user service: connection refused'') 400), orders_init)"
    by blast
  moreover from t [of world_down orders_init]
  have "UserID (decodeOrder \<lparr>o_id = None, o_user_id = None, o_product = Some ''Pen'',
                         o_quantity = Some 2, o_status = None, o_user = None\<rparr> zeroOrder) = 0"
    by blast
  ultimately show ?thesis by blast
qed

lemma getOrderByID_Method: "getOrderByID net (r\<lparr>Method := m\<rparr>) st = getOrderByID net r st"
  by (simp add: getOrderByID_def)

lemma getUserByID_Method: "getUserByID (r\<lparr>Method := m\<rparr>) st = getUserByID r st"
  by (simp add: getUserByID_def)

lemma getOrderByID_replies:
  "prefix ''/orders/'' (Path r) \<Longrightarrow>
     \<exists>w. getOrderByID net r st = Some w \<and> (status w = 200 \<or> status w = 400 \<or> status w = 404)"
  using under_orders [of "Path r"]
  by (auto simp: getOrderByID_def Let_def http_Error_def json_reply_def
           split: option.splits sum.splits)

lemma getUserByID_replies:
  "prefix ''/users/'' (Path r) \<Longrightarrow>
     \<exists>w. getUserByID r st = Some w \<and> (status w = 200 \<or> status w = 400 \<or> status w = 404)"
  using under_users [of "Path r"]
  by (auto simp: getUserByID_def Let_def http_Error_def json_reply_def
           split: option.splits sum.splits)

lemma serve_orders_405:
  assumes "serve_orders e r st = (Some w, st')" "status w = 405"
  shows "Path r = ''/orders'' \<and> Method r \<noteq> ''GET'' \<and> Method r \<noteq> ''POST''"
proof (cases "Path r = ''/orders''")
  case True
  with assms createOrder_status [of "env_net e" r st] show ?thesis
    by (auto simp: serve_orders_def getOrders_def json_reply_def split: if_splits prod.splits)
next
  case False
  with assms getOrderByID_replies [of r "env_net e" st] show ?thesis
    by (auto simp: serve_orders_def healthCheck_def NotFound_def http_Error_def split: if_splits)
qed

lemma createUser_status:
  "status (fst (createUser r st)) = 201 \<or> status (fst (createUser r st)) = 400"
  by (simp add: createUser_def Let_def http_Error_def json_reply_def split: decoded.splits)

lemma serve_users_405:
  assumes "serve_users ks r st = (Some w, st')" "status w = 405"
  shows "Path r = ''/users'' \<and> Method r \<noteq> ''GET'' \<and> Method r \<noteq> ''POST''"
proof (cases "Path r = ''/users''")
  case True
  with assms createUser_status [of r st] show ?thesis
    by (auto simp: serve_users_def getUsers_def json_reply_def split: if_splits prod.splits)
next
  case False
  with assms getUserByID_replies [of r st] show ?thesis
    by (auto simp: serve_users_def healthCheck_def NotFound_def http_Error_def split: if_splits)
qed

text \<open>
  C9.  Below \<open>/orders/\<close> and \<open>/users/\<close> the method of the request plays no part: whatever
  it is, the request is answered by the fetch-by-id handler, with 200, 400 or 404.  A 405 is
  only ever the answer to a request for the collection path itself with a method other than
  GET and POST.
\<close>

theorem sub_paths_ignore_method:
  "(prefix ''/orders/'' (Path r) \<longrightarrow>
       serve_orders e (r\<lparr>Method := m\<rparr>) st = (getOrderByID (env_net e) r st, st)
     \<and> (\<exists>w. getOrderByID (env_net e) r st = Some w
             \<and> (status w = 200 \<or> status w = 400 \<or> status w = 404)))
   \<and> (prefix ''/users/'' (Path ur) \<longrightarrow>
       serve_users ks (ur\<lparr>Method := m\<rparr>) ust = (getUserByID ur ust, ust)
     \<and> (\<exists>w. getUserByID ur ust = Some w
             \<and> (status w = 200 \<or> status w = 400 \<or> status w = 404)))
   \<and> (serve_orders e r st = (Some w, st') \<longrightarrow> status w = 405
       \<longrightarrow> Path r = ''/orders'' \<and> Method r \<noteq> ''GET'' \<and> Method r \<noteq> ''POST'')
   \<and> (serve_users ks ur ust = (Some uw, ust') \<longrightarrow> status uw = 405
       \<longrightarrow> Path ur = ''/users'' \<and> Method ur \<noteq> ''GET'' \<and> Method ur \<noteq> ''POST'')"
proof (intro conjI impI)
  assume p: "prefix ''/orders/'' (Path r)"
  then have "prefix ''/orders/'' (Path (r\<lparr>Method := m\<rparr>))" by simp
  then show "serve_orders e (r\<lparr>Method := m\<rparr>) st = (getOrderByID (env_net e) r st, st)"
    by (simp only: serve_orders_sub getOrderByID_Method)
  from p show "\<exists>w. getOrderByID (env_net e) r st = Some w
             \<and> (status w = 200 \<or> status w = 400 \<or> status w = 404)"
    by (rule getOrderByID_replies)
next
  assume p: "prefix ''/users/'' (Path ur)"
  then have "prefix ''/users/'' (Path (ur\<lparr>Method := m\<rparr>))" by simp
  then show "serve_users ks (ur\<lparr>Method := m\<rparr>) ust = (getUserByID ur ust, ust)"
    by (simp only: serve_users_sub getUserByID_Method)
  from p show "\<exists>w. getUserByID ur ust = Some w
             \<and> (status w = 200 \<or> status w = 400 \<or> status w = 404)"
    by (rule getUserByID_replies)
next
  assume "serve_orders e r st = (Some w, st')" "status w = 405"
  then show "Path r = ''/orders''" "Method r \<noteq> ''GET''" "Method r \<noteq> ''POST''"
    using serve_orders_405 by blast+
next
  assume "serve_users ks ur ust = (Some uw, ust')" "status uw = 405"
  then show "Path ur = ''/users''" "Method ur \<noteq> ''GET''" "Method ur \<noteq> ''POST''"
    using serve_users_405 by blast+
qed

theorem sub_paths_ignore_method_witness:
  "serve_orders world_down ((delete_order ''/orders/1'')\<lparr>Method := ''PUT''\<rparr>) orders_init
     = (getOrderByID (env_net world_down) (delete_order ''/orders/1'') orders_init, orders_init)
   \<and> serve_users [1, 2] ((delete_user ''/users/1'')\<lparr>Method := ''PUT''\<rparr>) users_init
     = (getUserByID (delete_user ''/users/1'') users_init, users_init)
   \<and> serve_orders world_down (delete_order ''/orders'') orders_init
     = (Some (http_Error ''Method not allowed'' 405), orders_init)
   \<and> serve_users [1, 2] (delete_user ''/users'') users_init
     = (Some (http_Error ''Method not allowed'' 405), users_init)
   \<and> Method (delete_order ''/orders'') \<noteq> ''GET''
   \<and> Method (delete_user ''/users'') \<noteq> ''POST''"
proof -
  have p: "prefix ''/orders/'' (Path (delete_order ''/orders/1''))"
    "prefix ''/users/'' (Path (delete_user ''/users/1''))"
    by (simp_all add: delete_order_def delete_user_def)
  have o: "serve_orders world_down (delete_order ''/orders'') orders_init
     = (Some (http_Error ''Method not allowed'' 405), orders_init)"
    by (simp add: serve_orders_def delete_order_def)
  have u: "serve_users [1, 2] (delete_user ''/users'') users_init
     = (Some (http_Error ''Method not allowed'' 405), users_init)"
    by (simp add: serve_users_def delete_user_def)
  have s: "status (http_Error ''Method not allowed'' 405) = 405"
    by (simp add: http_Error_def)
  from sub_paths_ignore_method [where r = "delete_order ''/orders/1''" and e = world_down
      and m = "''PUT''" and st = orders_init and ur = "delete_user ''/users/1''"
      and ks = "[1, 2]" and ust = users_init] p
  have "serve_orders world_down ((delete_order ''/orders/1'')\<lparr>Method := ''PUT''\<rparr>) orders_init
     = (getOrderByID (env_net world_down) (delete_order ''/orders/1'') orders_init, orders_init)"
    and "serve_users [1, 2] ((delete_user ''/users/1'')\<lparr>Method := ''PUT''\<rparr>) users_init
     = (getUserByID (delete_user ''/users/1'') users_init, users_init)"
    by blast+
  moreover from sub_paths_ignore_method [where r = "delete_order ''/orders''" and e = world_down
      and st = orders_init and w = "http_Error ''Method not allowed'' 405" and st' = orders_init
      and ur = "delete_user ''/users''" and ks = "[1, 2]" and ust = users_init
      and uw = "http_Error ''Method not allowed'' 405" and ust' = users_init] o u s
  have "Method (delete_order ''/orders'') \<noteq> ''GET''"
    and "Method (delete_user ''/users'') \<noteq> ''POST''"
    by blast+
  ultimately show ?thesis using o u by blast
qed

subsection \<open>Listing\<close>

lemma map_filter_visits:
  "set ks \<subseteq> dom m \<Longrightarrow> map Some (List.map_filter m ks) = map m ks"
  by (induction ks) auto

lemma map_filter_members:
  "set ks \<subseteq> dom m \<Longrightarrow>
     List.map_filter (\<lambda>k. map_option (\<lambda>u. (g k, h u)) (m k)) ks
       = zip (map g ks) (map h (List.map_filter m ks))"
  by (induction ks) auto

lemma visits_records:
  assumes "visits ks m"
  shows "map Some (List.map_filter m ks) = map m ks"
    and "set (List.map_filter m ks) = ran m"
    and "length (List.map_filter m ks) = card (dom m)"
proof -
  from assms have d: "distinct ks" and s: "set ks = dom m" by (simp_all add: visits_def)
  from s show eq: "map Some (List.map_filter m ks) = map m ks"
    by (simp add: map_filter_visits)
  have "Some ` set (List.map_filter m ks) = m ` set ks"
    using arg_cong [OF eq, of set] by simp
  moreover have "m ` dom m = Some ` ran m"
    by (force simp: ran_def dom_def image_iff)
  ultimately have "Some ` set (List.map_filter m ks) = Some ` ran m"
    unfolding s by simp
  then show "set (List.map_filter m ks) = ran m"
    by (simp add: inj_image_eq_iff)
  have "length (List.map_filter m ks) = length ks"
    using arg_cong [OF eq, of length] by simp
  also have "\<dots> = card (dom m)" using d s by (metis distinct_card)
  finally show "length (List.map_filter m ks) = card (dom m)" .
qed

lemma distinct_Itoa: "distinct ks \<Longrightarrow> distinct (map Itoa ks)"
  by (simp add: distinct_map inj_on_def) (blast dest: Itoa_inj)

text \<open>
  C2 (as amended).  The list operation answers 200, leaves the store as it is, and returns
  exactly the current records, one for each key, in the order the runtime visits the map:
  the order service as a JSON array of the orders, the user service as a JSON object with one
  member for each user, named by the user's id in decimal.
\<close>

theorem list_returns_current_records:
  "(Path r = ''/orders'' \<longrightarrow> Method r = ''GET'' \<longrightarrow> visits (env_range e) (orders st) \<longrightarrow>
      (\<exists>xs. serve_orders e r st = (Some (json_reply 200 (JArr (map encodeOrder xs))), st)
           \<and> map Some xs = map (orders st) (env_range e)
           \<and> set xs = ran (orders st) \<and> length xs = card (dom (orders st))))
   \<and> (Path ur = ''/users'' \<longrightarrow> Method ur = ''GET'' \<longrightarrow> visits ks (users ust) \<longrightarrow>
      (\<exists>us. serve_users ks ur ust
               = (Some (json_reply 200 (JObj (zip (map Itoa ks) (map encodeUser us)))), ust)
           \<and> map Some us = map (users ust) ks
           \<and> set us = ran (users ust) \<and> length us = card (dom (users ust))
           \<and> distinct (map Itoa ks)))"
proof (intro conjI impI)
  assume "Path r = ''/orders''" "Method r = ''GET''" and v: "visits (env_range e) (orders st)"
  then have "serve_orders e r st
      = (Some (json_reply 200 (JArr (map encodeOrder (List.map_filter (orders st) (env_range e))))), st)"
    by (simp add: serve_orders_def getOrders_def)
  with visits_records [OF v]
  show "\<exists>xs. serve_orders e r st = (Some (json_reply 200 (JArr (map encodeOrder xs))), st)
           \<and> map Some xs = map (orders st) (env_range e)
           \<and> set xs = ran (orders st) \<and> length xs = card (dom (orders st))"
    by blast
next
  assume "Path ur = ''/users''" "Method ur = ''GET''" and v: "visits ks (users ust)"
  from v have sub: "set ks \<subseteq> dom (users ust)" and d: "distinct ks" by (simp_all add: visits_def)
  from \<open>Path ur = ''/users''\<close> \<open>Method ur = ''GET''\<close>
  have "serve_users ks ur ust
      = (Some (json_reply 200
           (JObj (zip (map Itoa ks) (map encodeUser (List.map_filter (users ust) ks))))), ust)"
    by (simp add: serve_users_def getUsers_def map_filter_members [OF sub])
  with visits_records [OF v] distinct_Itoa [OF d]
  show "\<exists>us. serve_users ks ur ust
               = (Some (json_reply 200 (JObj (zip (map Itoa ks) (map encodeUser us)))), ust)
           \<and> map Some us = map (users ust) ks
           \<and> set us = ran (users ust) \<and> length us = card (dom (users ust))
           \<and> distinct (map Itoa ks)"
    by blast
qed

lemma visits_seed:
  "visits [1, 2] (orders orders_init)" "visits [1, 2] (users users_init)"
  by (auto simp: visits_def orders_init_def users_init_def)

theorem list_returns_current_records_witness:
  "visits (env_range world_up) (orders orders_init)
   \<and> status (the (fst (serve_orders world_up (get_order ''/orders'') orders_init))) = 200
   \<and> array_body (the (fst (serve_orders world_up (get_order ''/orders'') orders_init)))
   \<and> snd (serve_orders world_up (get_order ''/orders'') orders_init) = orders_init
   \<and> visits [1, 2] (users users_init)
   \<and> status (the (fst (serve_users [1, 2] (get_user ''/users'') users_init))) = 200
   \<and> snd (serve_users [1, 2] (get_user ''/users'') users_init) = users_init"
proof -
  have r: "Path (get_order ''/orders'') = ''/orders''" "Method (get_order ''/orders'') = ''GET''"
    "Path (get_user ''/users'') = ''/users''" "Method (get_user ''/users'') = ''GET''"
    by (simp_all add: get_order_def get_user_def)
  have v: "visits (env_range world_up) (orders orders_init)" "visits [1, 2] (users users_init)"
    using visits_seed by (simp_all add: world_up_def)
  note t = list_returns_current_records [where r = "get_order ''/orders''" and e = world_up
      and st = orders_init and ur = "get_user ''/users''" and ks = "[1, 2]" and ust = users_init]
  from t r v obtain xs where
    "serve_orders world_up (get_order ''/orders'') orders_init
       = (Some (json_reply 200 (JArr (map encodeOrder xs))), orders_init)"
    by blast
  then have "status (the (fst (serve_orders world_up (get_order ''/orders'') orders_init))) = 200"
    and "array_body (the (fst (serve_orders world_up (get_order ''/orders'') orders_init)))"
    and "snd (serve_orders world_up (get_order ''/orders'') orders_init) = orders_init"
    by (simp_all add: json_reply_def array_body_def)
  moreover from t r v obtain us where
    "serve_users [1, 2] (get_user ''/users'') users_init
       = (Some (json_reply 200 (JObj (zip (map Itoa [1, 2]) (map encodeUser us)))), users_init)"
    by blast
  then have "status (the (fst (serve_users [1, 2] (get_user ''/users'') users_init))) = 200"
    and "snd (serve_users [1, 2] (get_user ''/users'') users_init) = users_init"
    by (simp_all add: json_reply_def)
  ultimately show ?thesis using v by blast
qed

text \<open>
  C2, as stated, fails for the user service: on the seeded store the body of \<open>GET /users\<close>
  is a JSON object with the members \<open>1\<close> and \<open>2\<close>, not an array.
\<close>

theorem user_list_is_an_object:
  "visits [1, 2] (users users_init)
   \<and> serve_users [1, 2] (get_user ''/users'') users_init
       = (Some (json_reply 200
           (JObj [(''1'', encodeUser \<lparr>User.ID = 1, Name = seed_name_1, Email = ''player@example.com''\<rparr>),
                  (''2'', encodeUser \<lparr>User.ID = 2, Name = seed_name_2, Email = ''mishutka@example.com''\<rparr>)])),
          users_init)
   \<and> array_body (json_reply 200
           (JObj [(''1'', encodeUser \<lparr>User.ID = 1, Name = seed_name_1, Email = ''player@example.com''\<rparr>),
                  (''2'', encodeUser \<lparr>User.ID = 2, Name = seed_name_2, Email = ''mishutka@example.com''\<rparr>)]))
       = False"
proof -
  have i: "Itoa 1 = ''1''" "Itoa 2 = ''2''" by code_simp+
  have "serve_users [1, 2] (get_user ''/users'') users_init
       = (Some (json_reply 200
           (JObj [(''1'', encodeUser \<lparr>User.ID = 1, Name = seed_name_1, Email = ''player@example.com''\<rparr>),
                  (''2'', encodeUser \<lparr>User.ID = 2, Name = seed_name_2, Email = ''mishutka@example.com''\<rparr>)])),
          users_init)"
    by (simp add: serve_users_def get_user_def getUsers_def users_init_def i)
  then show ?thesis
    by (simp add: visits_seed array_body_def json_reply_def)
qed

subsection \<open>The user snapshot\<close>

lemma order_has_user_iff: "order_has_user (encodeOrder x) \<longleftrightarrow> User x \<noteq> None"
  by (cases "User x") (simp_all add: order_has_user_def encodeOrder_def)

lemma carries_user_order: "carries_user (json_reply c (encodeOrder x)) \<longleftrightarrow> User x \<noteq> None"
  using order_has_user_iff [of x]
  by (simp add: carries_user_def json_reply_def encodeOrder_def order_has_user_def)

lemma carries_user_error: "\<not> carries_user (http_Error msg c)"
  by (simp add: carries_user_def http_Error_def)

lemma carries_user_orders:
  "carries_user (json_reply c (JArr (map encodeOrder xs))) \<longleftrightarrow> (\<exists>x \<in> set xs. User x \<noteq> None)"
  by (simp add: carries_user_def json_reply_def list_ex_iff order_has_user_iff)

lemma map_filter_in_ran: "x \<in> set (List.map_filter m ks) \<Longrightarrow> \<exists>k. m k = Some x"
  by (induction ks) (auto split: option.splits)

lemma getOrders_plain: "no_snapshot st \<Longrightarrow> \<not> carries_user (getOrders ks st)"
proof -
  assume n: "no_snapshot st"
  have "User x = None" if "x \<in> set (List.map_filter (orders st) ks)" for x
    using map_filter_in_ran [OF that] n unfolding no_snapshot_def by blast
  then show ?thesis
    unfolding getOrders_def carries_user_orders by auto
qed

lemma createOrder_plain:
  assumes "without_user r" "no_snapshot st"
  shows "\<not> carries_user (fst (createOrder net r st)) \<and> no_snapshot (snd (createOrder net r st))"
proof (cases "Body r")
  case (Undecodable msg)
  with assms show ?thesis by (simp add: createOrder_def carries_user_error)
next
  case (Object f)
  with assms have u: "User (decodeOrder f zeroOrder) = None"
    by (simp add: without_user_def decodeOrder_def zeroOrder_def)
  show ?thesis
  proof (cases "GetUserByID userClient net (UserID (decodeOrder f zeroOrder))")
    case (Inl err)
    with Object assms show ?thesis
      by (simp add: createOrder_peer_error carries_user_error)
  next
    case (Inr v)
    with Object assms u show ?thesis
      by (simp add: createOrder_peer_ok [where u = v] carries_user_order no_snapshot_def)
  qed
qed

lemma getOrderByID_user:
  assumes "no_snapshot st" "getOrderByID net r st = Some w" "carries_user w"
  shows "\<exists>i x u. Atoi (drop (length ''/orders/'') (Path r)) = Some i \<and> orders st i = Some x
           \<and> GetUserByID userClient net (UserID x) = Inr u
           \<and> w = json_reply 200 (encodeOrder (x\<lparr>User := Some u\<rparr>))"
proof -
  from assms(2) obtain i where i: "Atoi (drop (length ''/orders/'') (Path r)) = Some i"
    using assms(3)
    by (cases "Atoi (drop (length ''/orders/'') (Path r))")
       (auto simp: getOrderByID_def carries_user_error split: if_splits)
  from assms(2,3) i obtain x where x: "orders st i = Some x"
    by (cases "orders st i") (auto simp: getOrderByID_def carries_user_error split: if_splits)
  from assms(1) x have n: "User x = None" unfolding no_snapshot_def by blast
  show ?thesis
  proof (cases "GetUserByID userClient net (UserID x)")
    case (Inl err)
    with assms(2) i x have "w = json_reply 200 (encodeOrder x)"
      by (auto simp: getOrderByID_def split: if_splits)
    with assms(3) n show ?thesis by (simp add: carries_user_order)
  next
    case (Inr u)
    with assms(2) i x have "w = json_reply 200 (encodeOrder (x\<lparr>User := Some u\<rparr>))"
      by (auto simp: getOrderByID_def split: if_splits)
    with i x Inr show ?thesis by blast
  qed
qed

lemma serve_orders_plain:
  assumes "without_user r" "no_snapshot st"
  shows "no_snapshot (snd (serve_orders e r st))"
proof (cases "Path r = ''/orders'' \<and> Method r = ''POST''")
  case True
  with createOrder_plain [OF assms, of "env_net e"] show ?thesis
    by (simp add: serve_orders_post)
next
  case False
  with assms(2) show ?thesis by (simp add: serve_orders_reads)
qed

lemma run_orders_plain:
  assumes "\<forall>(e, r) \<in> set evs. without_user r" "no_snapshot st"
  shows "no_snapshot (run_orders evs st)"
  using assms
proof (induction evs arbitrary: st)
  case Nil
  then show ?case by simp
next
  case (Cons a evs)
  obtain e r where a: "a = (e, r)" by (cases a)
  with Cons.prems have "without_user r" by simp
  from serve_orders_plain [OF this Cons.prems(2), of e] Cons.prems(1) Cons.IH
  show ?case unfolding a by simp
qed

lemma orders_init_plain: "no_snapshot orders_init"
  by (simp add: no_snapshot_def orders_init_def)

lemma serve_orders_user:
  assumes "without_user r" "no_snapshot st" "serve_orders e r st = (Some w, st')" "carries_user w"
  shows "prefix ''/orders/'' (Path r)
       \<and> (\<exists>i x u. Atoi (drop (length ''/orders/'') (Path r)) = Some i \<and> orders st i = Some x
             \<and> GetUserByID userClient (env_net e) (UserID x) = Inr u
             \<and> w = json_reply 200 (encodeOrder (x\<lparr>User := Some u\<rparr>)))"
proof (cases "Path r = ''/orders''")
  case True
  show ?thesis
  proof (cases "Method r = ''POST''")
    case True
    with \<open>Path r = ''/orders''\<close> assms(3) have "w = fst (createOrder (env_net e) r st)"
      by (simp add: serve_orders_post)
    with createOrder_plain [OF assms(1,2), of "env_net e"] assms(4) show ?thesis by simp
  next
    case False
    with \<open>Path r = ''/orders''\<close> assms(3,4) getOrders_plain [OF assms(2), of "env_range e"]
    show ?thesis
      by (auto simp: serve_orders_def carries_user_error split: if_splits)
  qed
next
  case False
  show ?thesis
  proof (cases "prefix ''/orders/'' (Path r)")
    case True
    from assms(3) have "getOrderByID (env_net e) r st = Some w"
      unfolding serve_orders_sub [OF True] by auto
    from getOrderByID_user [OF assms(2) this assms(4)] True show ?thesis by blast
  next
    case no: False
    with False assms(3,4) show ?thesis
      by (auto simp: serve_orders_def NotFound_def http_Error_def carries_user_def
            healthCheck_def split: if_splits)
  qed
qed

text \<open>
  C1 (as amended).  As long as no create-order payload has brought a user object, no stored
  order has a snapshot; and in such a store, a response to a request without one shows a
  snapshot only if it answers a single-order fetch whose call to the user service
  succeeded, the snapshot being that user.
\<close>

theorem snapshot_absent_without_payload_user:
  assumes "\<forall>(e, r) \<in> set evs. without_user r"
  shows "no_snapshot (run_orders evs orders_init)
       \<and> (\<forall>e r w st'. without_user r
             \<longrightarrow> serve_orders e r (run_orders evs orders_init) = (Some w, st')
             \<longrightarrow> carries_user w
             \<longrightarrow> prefix ''/orders/'' (Path r)
                 \<and> (\<exists>i x u. Atoi (drop (length ''/orders/'') (Path r)) = Some i
                       \<and> orders (run_orders evs orders_init) i = Some x
                       \<and> GetUserByID userClient (env_net e) (UserID x) = Inr u
                       \<and> w = json_reply 200 (encodeOrder (x\<lparr>User := Some u\<rparr>))))"
proof -
  have n: "no_snapshot (run_orders evs orders_init)"
    using assms orders_init_plain by (rule run_orders_plain)
  with serve_orders_user show ?thesis by blast
qed

lemma post_order_facts:
  "Path post_order = ''/orders''" "Method post_order = ''POST''" "Body post_order = Object book"
  by (simp_all add: post_order_def)

lemma serve_book: "serve_orders world_up post_order orders_init
    = (Some (json_reply 201 (encodeOrder ((decodeOrder book zeroOrder)\<lparr>Order.ID := 3\<rparr>))), with_book)"
  by (simp add: serve_orders_post post_order_facts world_up_def created_book with_book_def)

lemma get_order_facts:
  "Path (get_order p) = p" "Method (get_order p) = ''GET''"
  by (simp_all add: get_order_def)

lemma atoi_3: "Atoi ''3'' = Some 3"
  by (simp add: Atoi_def digit_val_def)

lemma run_book:
  "run_orders [(world_up, post_order), (world_down, get_order ''/orders/1'')] orders_init = with_book"
  by (simp add: serve_book serve_orders_reads get_order_facts)

lemma peer_found_user: "GetUserByID userClient peer_found i = Inr (decodeUser alice zeroUser)"
  by (simp add: GetUserByID_def peer_found_def)

lemma peer_down_error:
  "GetUserByID userClient peer_down i = Inl ''failed to connect to user service: connection refused''"
  by (simp add: GetUserByID_def peer_down_def)

lemma book_3: "orders with_book 3 = Some ((decodeOrder book zeroOrder)\<lparr>Order.ID := 3\<rparr>)"
  by (simp add: with_book_def)

lemma fetch_book_up:
  "serve_orders world_up (get_order ''/orders/3'') with_book
     = (Some (json_reply 200 (encodeOrder ((decodeOrder book zeroOrder)
          \<lparr>Order.ID := 3, User := Some (decodeUser alice zeroUser)\<rparr>))), with_book)"
  by (simp add: serve_orders_sub get_order_facts getOrderByID_def atoi_3 book_3 world_up_def
        peer_found_user)

theorem snapshot_absent_without_payload_user_witness:
  "without_user post_order \<and> without_user (get_order ''/orders/1'')
   \<and> no_snapshot (run_orders [(world_up, post_order), (world_down, get_order ''/orders/1'')] orders_init)
   \<and> carries_user (json_reply 200 (encodeOrder ((decodeOrder book zeroOrder)
          \<lparr>Order.ID := 3, User := Some (decodeUser alice zeroUser)\<rparr>)))
   \<and> prefix ''/orders/'' (Path (get_order ''/orders/3''))"
proof -
  have w: "without_user post_order" "without_user (get_order ''/orders/1'')"
    "without_user (get_order ''/orders/3'')"
    by (simp_all add: without_user_def post_order_def book_def get_order_def)
  then have a: "\<forall>(e, r) \<in> set [(world_up, post_order), (world_down, get_order ''/orders/1'')].
                  without_user r"
    by simp
  have c: "carries_user (json_reply 200 (encodeOrder ((decodeOrder book zeroOrder)
          \<lparr>Order.ID := 3, User := Some (decodeUser alice zeroUser)\<rparr>)))"
    by (simp add: carries_user_order)
  note t = snapshot_absent_without_payload_user [OF a]
  from t have "no_snapshot (run_orders [(world_up, post_order), (world_down, get_order ''/orders/1'')] orders_init)"
    by blast
  moreover from t w(3) fetch_book_up c
  have "prefix ''/orders/'' (Path (get_order ''/orders/3''))"
    unfolding run_book by blast
  ultimately show ?thesis using w c by blast
qed

lemma mallory_order:
  "decodeOrder (book\<lparr>o_user := Some mallory\<rparr>) zeroOrder
     = \<lparr>Order.ID = 99, UserID = 1, Product = ''Book'', Quantity = 1, Status = ''pending'',
        User = Some \<lparr>User.ID = 9, Name = ''Mallory'', Email = ''m@example.com''\<rparr>\<rparr>"
  by (simp add: decodeOrder_def decodeUser_def book_def mallory_def assign_def zeroOrder_def zeroUser_def)

lemma serve_mallory:
  "snd (serve_orders world_up post_with_user orders_init) = with_mallory"
proof -
  have r: "Path post_with_user = ''/orders''" "Method post_with_user = ''POST''"
    "Body post_with_user = Object (book\<lparr>o_user := Some mallory\<rparr>)"
    by (simp_all add: post_with_user_def)
  have "GetUserByID userClient (env_net world_up) (UserID (decodeOrder (book\<lparr>o_user := Some mallory\<rparr>) zeroOrder))
          = Inr (decodeUser alice zeroUser)"
    by (simp add: world_up_def peer_found_user)
  from createOrder_peer_ok [OF r(3) this, of orders_init] r(1,2) show ?thesis
    by (simp add: serve_orders_post mallory_order with_mallory_def orders_init_def)
qed

text \<open>
  C1, as stated, fails: \<open>createOrder\<close> stores the decoded payload whole, so the user object
  of a payload is persisted with the order.
\<close>

theorem payload_user_is_stored:
  "without_user post_with_user = False
   \<and> orders (snd (serve_orders world_up post_with_user orders_init)) 3
       = Some \<lparr>Order.ID = 3, UserID = 1, Product = ''Book'', Quantity = 1, Status = ''pending'',
               User = Some \<lparr>User.ID = 9, Name = ''Mallory'', Email = ''m@example.com''\<rparr>\<rparr>
   \<and> no_snapshot (snd (serve_orders world_up post_with_user orders_init)) = False"
proof -
  have "orders with_mallory 3
       = Some \<lparr>Order.ID = 3, UserID = 1, Product = ''Book'', Quantity = 1, Status = ''pending'',
               User = Some \<lparr>User.ID = 9, Name = ''Mallory'', Email = ''m@example.com''\<rparr>\<rparr>"
    by (simp add: with_mallory_def)
  moreover from this have "\<not> no_snapshot with_mallory"
    unfolding no_snapshot_def by force
  moreover have "\<not> without_user post_with_user"
    by (simp add: without_user_def post_with_user_def)
  ultimately show ?thesis by (simp add: serve_mallory)
qed

subsection \<open>Fetching one order\<close>

lemma getOrderByID_found:
  assumes "prefix ''/orders/'' (Path r)" "Atoi (drop (length ''/orders/'') (Path r)) = Some i"
    and "orders st i = Some x"
  shows "getOrderByID net r st =
           Some (json_reply 200 (encodeOrder
             (case GetUserByID userClient net (UserID x) of Inl err \<Rightarrow> x | Inr u \<Rightarrow> x\<lparr>User := Some u\<rparr>)))"
  using assms under_orders [of "Path r"]
  by (simp add: getOrderByID_def Let_def split: sum.splits)

text \<open>
  C3 (as amended).  A fetch of one order with a well-formed id: an absent order is answered
  with 404; a present order is answered with 200 carrying the fetched user when the client
  returns one, and with 200 and the order exactly as stored when the client returns an
  error, so that the answer then has a member \<open>user\<close> only if the stored order has a
  snapshot.  The store is unchanged in every case.
\<close>

theorem fetch_order_tolerates_peer:
  assumes "prefix ''/orders/'' (Path r)" and "Atoi (drop (length ''/orders/'') (Path r)) = Some i"
  shows "(orders st i = None
            \<longrightarrow> serve_orders e r st = (Some (http_Error ''Order not found'' 404), st))
       \<and> (\<forall>x u. orders st i = Some x \<longrightarrow> GetUserByID userClient (env_net e) (UserID x) = Inr u
            \<longrightarrow> serve_orders e r st = (Some (json_reply 200 (encodeOrder (x\<lparr>User := Some u\<rparr>))), st)
                \<and> carries_user (json_reply 200 (encodeOrder (x\<lparr>User := Some u\<rparr>))))
       \<and> (\<forall>x err. orders st i = Some x \<longrightarrow> GetUserByID userClient (env_net e) (UserID x) = Inl err
            \<longrightarrow> serve_orders e r st = (Some (json_reply 200 (encodeOrder x)), st)
                \<and> (carries_user (json_reply 200 (encodeOrder x)) \<longleftrightarrow> User x \<noteq> None))"
proof (intro conjI allI impI)
  assume "orders st i = None"
  with assms show "serve_orders e r st = (Some (http_Error ''Order not found'' 404), st)"
    by (simp only: serve_orders_sub getOrderByID_absent)
next
  fix x u
  assume "orders st i = Some x" "GetUserByID userClient (env_net e) (UserID x) = Inr u"
  with assms show "serve_orders e r st = (Some (json_reply 200 (encodeOrder (x\<lparr>User := Some u\<rparr>))), st)"
    by (simp add: serve_orders_sub getOrderByID_found [where x = x and i = i])
  show "carries_user (json_reply 200 (encodeOrder (x\<lparr>User := Some u\<rparr>)))"
    by (simp add: carries_user_order)
next
  fix x err
  assume "orders st i = Some x" "GetUserByID userClient (env_net e) (UserID x) = Inl err"
  with assms show "serve_orders e r st = (Some (json_reply 200 (encodeOrder x)), st)"
    by (simp add: serve_orders_sub getOrderByID_found [where x = x and i = i])
  show "carries_user (json_reply 200 (encodeOrder x)) \<longleftrightarrow> User x \<noteq> None"
    by (rule carries_user_order)
qed

lemma fetch_facts:
  "prefix ''/orders/'' (Path (get_order ''/orders/3''))"
  "Atoi (drop (length ''/orders/'') (Path (get_order ''/orders/3''))) = Some 3"
  "prefix ''/orders/'' (Path (get_order ''/orders/1''))"
  "Atoi (drop (length ''/orders/'') (Path (get_order ''/orders/1''))) = Some 1"
  by (simp_all add: get_order_def Atoi_def digit_val_def)

lemma seeded_1:
  "orders orders_init 1 = Some \<lparr>Order.ID = 1, UserID = 1, Product = ''Laptop'', Quantity = 1,
                       Status = ''pending'', User = None\<rparr>"
  "orders orders_init 3 = None"
  by (simp_all add: orders_init_def)

theorem fetch_order_tolerates_peer_witness:
  "serve_orders world_down (get_order ''/orders/3'') orders_init
     = (Some (http_Error ''Order not found'' 404), orders_init)
   \<and> serve_orders world_up (get_order ''/orders/1'') orders_init
     = (Some (json_reply 200 (encodeOrder
          \<lparr>Order.ID = 1, UserID = 1, Product = ''Laptop'', Quantity = 1, Status = ''pending'',
           User = Some (decodeUser alice zeroUser)\<rparr>)), orders_init)
   \<and> serve_orders world_down (get_order ''/orders/1'') orders_init
     = (Some (json_reply 200 (encodeOrder
          \<lparr>Order.ID = 1, UserID = 1, Product = ''Laptop'', Quantity = 1, Status = ''pending'',
           User = None\<rparr>)), orders_init)
   \<and> carries_user (json_reply 200 (encodeOrder
          \<lparr>Order.ID = 1, UserID = 1, Product = ''Laptop'', Quantity = 1, Status = ''pending'',
           User = None\<rparr>)) = False"
proof -
  let ?x = "\<lparr>Order.ID = 1, UserID = 1, Product = ''Laptop'', Quantity = 1, Status = ''pending'',
           User = None\<rparr>"
  have up: "GetUserByID userClient (env_net world_up) (UserID ?x) = Inr (decodeUser alice zeroUser)"
    by (simp add: world_up_def peer_found_user)
  have down: "GetUserByID userClient (env_net world_down) (UserID ?x)
                = Inl ''failed to connect to user service: connection refused''"
    by (simp add: world_down_def peer_down_error)
  from fetch_order_tolerates_peer [OF fetch_facts(1,2), of orders_init world_down] seeded_1(2)
  have "serve_orders world_down (get_order ''/orders/3'') orders_init
     = (Some (http_Error ''Order not found'' 404), orders_init)"
    by blast
  moreover from fetch_order_tolerates_peer [OF fetch_facts(3,4), of orders_init world_up] seeded_1(1) up
  have "serve_orders world_up (get_order ''/orders/1'') orders_init
     = (Some (json_reply 200 (encodeOrder (?x\<lparr>User := Some (decodeUser alice zeroUser)\<rparr>))), orders_init)"
    by blast
  moreover from fetch_order_tolerates_peer [OF fetch_facts(3,4), of orders_init world_down] seeded_1(1) down
  have "serve_orders world_down (get_order ''/orders/1'') orders_init
     = (Some (json_reply 200 (encodeOrder ?x)), orders_init)"
    and "carries_user (json_reply 200 (encodeOrder ?x)) \<longleftrightarrow> User ?x \<noteq> None"
    by blast+
  ultimately show ?thesis by simp
qed

lemma mallory_3:
  "orders with_mallory 3
       = Some \<lparr>Order.ID = 3, UserID = 1, Product = ''Book'', Quantity = 1, Status = ''pending'',
               User = Some \<lparr>User.ID = 9, Name = ''Mallory'', Email = ''m@example.com''\<rparr>\<rparr>"
  by (simp add: with_mallory_def)

text \<open>
  C3, as stated, fails: with the user service down, the fetch of an order that was created
  from a payload with a user object answers 200 with that object as its member \<open>user\<close>.
\<close>

theorem fetch_returns_stored_snapshot:
  "GetUserByID userClient (env_net world_down) 1
     = Inl ''failed to connect to user service: connection refused''
   \<and> serve_orders world_down (get_order ''/orders/3'')
       (snd (serve_orders world_up post_with_user orders_init))
     = (Some (json_reply 200 (encodeOrder
          \<lparr>Order.ID = 3, UserID = 1, Product = ''Book'', Quantity = 1, Status = ''pending'',
           User = Some \<lparr>User.ID = 9, Name = ''Mallory'', Email = ''m@example.com''\<rparr>\<rparr>)),
        snd (serve_orders world_up post_with_user orders_init))
   \<and> carries_user (json_reply 200 (encodeOrder
          \<lparr>Order.ID = 3, UserID = 1, Product = ''Book'', Quantity = 1, Status = ''pending'',
           User = Some \<lparr>User.ID = 9, Name = ''Mallory'', Email = ''m@example.com''\<rparr>\<rparr>))"
proof -
  have d: "GetUserByID userClient (env_net world_down) 1
     = Inl ''failed to connect to user service: connection refused''"
    by (simp add: world_down_def peer_down_error)
  have "getOrderByID (env_net world_down) (get_order ''/orders/3'') with_mallory
     = Some (json_reply 200 (encodeOrder
          \<lparr>Order.ID = 3, UserID = 1, Product = ''Book'', Quantity = 1, Status = ''pending'',
           User = Some \<lparr>User.ID = 9, Name = ''Mallory'', Email = ''m@example.com''\<rparr>\<rparr>))"
    by (simp add: getOrderByID_found [OF fetch_facts(1,2) mallory_3] d)
  with d show ?thesis
    by (simp add: serve_mallory serve_orders_sub fetch_facts(1) carries_user_order)
qed

end
